theory Spec2Isabelle
  imports Complex_Main
begin

section \<open>The canvas painter of zrender: layer registry, dirty classification, paint scheduling\<close>

text \<open>
  A shallow embedding of \<^verbatim>\<open>src/canvas/Painter.ts\<close>. The JavaScript numbers used as
  z-level keys are doubles. Every double other than \<open>NaN\<close> is a rational number and the
  comparisons of the code (\<^verbatim>\<open><\<close>, \<^verbatim>\<open>>\<close>, \<^verbatim>\<open>===\<close>) are the exact ones, so a key is modelled by a
  rational; \<open>NaN\<close> is outside the model. The sum of two doubles is rounded, so it is not
  the sum of the rationals: wherever the code adds z-levels the model calls \<open>add\<close>, which
  the host supplies together with the clock. The rationals \<open>1/1000\<close> and \<open>1/100\<close> stand for
  the doubles that the literals \<open>0.001\<close> and \<open>0.01\<close> denote. List indices are integers,
  because the code stores the sentinel \<open>-1\<close> in \<open>__drawIndex\<close>.

  Layer objects are mutable and compared by identity (\<open>layer !== prevLayer\<close>,
  \<open>layer !== this._hoverlayer\<close>), so they live in an explicit store: an address is a
  natural number, \<open>heap\<close> maps addresses to layer records and the registry \<open>_layers\<close> maps
  z-level keys to addresses. The configuration objects that callers hand to
  \<^verbatim>\<open>configLayer\<close> are kept by reference and changed in place, so they live in a store of
  their own, \<open>configs\<close>, and \<open>_layerConfig\<close> maps z-level keys to addresses of that store.
\<close>

subsection \<open>Constants\<close>

definition HOVER_LAYER_ZLEVEL :: rat where
  "HOVER_LAYER_ZLEVEL = 100000"

definition CANVAS_ZLEVEL :: rat where
  "CANVAS_ZLEVEL = 314159"

definition EL_AFTER_INCREMENTAL_INC :: rat where
  "EL_AFTER_INCREMENTAL_INC = 1 / 100"

definition INCREMENTAL_INC :: rat where
  "INCREMENTAL_INC = 1 / 1000"

subsection \<open>Data model\<close>

text \<open>
  Modelled from the spec: the type \<^verbatim>\<open>LayerConfig\<close> is declared in \<^verbatim>\<open>Layer.ts\<close>, which is
  not among the sources. The spec describes the options as a clear colour and other
  per-layer render hints. An option of an object is absent, or present with the value
  null (or undefined), or present with a value. Clear colours are strings: gradient and
  pattern objects are outside the model.
\<close>

datatype 'a field = Absent | Null | Value 'a

record LayerConfig =
  clearColor :: "string field"
  motionBlur :: "bool field"
  lastFrameAlpha :: "rat field"

text \<open>
  Modelled from the spec: \<^verbatim>\<open>util.merge(target, source, true)\<close> lives in \<^verbatim>\<open>core/util\<close>, which
  is not among the sources. The spec says the options are merged shallowly: every option
  present in the source, also one whose value is null, overwrites the target's, and the
  others are kept. \<open>merge\<close> gives the options of the target after the call.
\<close>

definition overwrite :: "'a field \<Rightarrow> 'a field \<Rightarrow> 'a field" where
  "overwrite target source = (case source of Absent \<Rightarrow> target | Null \<Rightarrow> Null | Value v \<Rightarrow> Value v)"

definition merge :: "LayerConfig \<Rightarrow> LayerConfig \<Rightarrow> LayerConfig" where
  "merge target source =
     \<lparr> clearColor = overwrite (clearColor target) (clearColor source),
       motionBlur = overwrite (motionBlur target) (motionBlur source),
       lastFrameAlpha = overwrite (lastFrameAlpha target) (lastFrameAlpha source) \<rparr>"

text \<open>
  The fields of a \<^verbatim>\<open>Layer\<close> object that the painter reads or writes. \<open>has_resize\<close> and
  \<open>has_refresh\<close> say whether \<^verbatim>\<open>layer.resize\<close> and \<^verbatim>\<open>layer.refresh\<close> are functions;
  \<open>dom_attached\<close> says whether \<^verbatim>\<open>layer.dom.parentNode\<close> is non-null; \<open>has_painter\<close> whether
  \<^verbatim>\<open>layer.__painter\<close> has been set; \<open>config\<close> holds the option fields that
  \<^verbatim>\<open>util.merge\<close> copies onto the layer.
\<close>

record Layer =
  zlevel :: rat
  builtin :: bool
  dirty :: bool
  used :: bool
  startIndex :: int
  endIndex :: int
  drawIndex :: int
  incremental :: bool
  virtual :: bool
  has_resize :: bool
  has_refresh :: bool
  config :: LayerConfig
  dom_attached :: bool
  has_painter :: bool

text \<open>The fields of a display-list element that the painter reads.\<close>

record Displayable =
  el_zlevel :: rat
  el_incremental :: bool
  el_dirty :: bool
  el_notClear :: bool

type_synonym addr = nat

text \<open>
  What the host supplies: the object built by \<^verbatim>\<open>new Layer('zr_' + zlevel, this, this.dpr)\<close>
  and by \<^verbatim>\<open>new Layer(rootCanvas, this, this.dpr)\<close> (the constructor is in \<^verbatim>\<open>Layer.ts\<close>), the
  clock: \<open>now h k\<close> is the value of the \<open>k\<close>-th call of \<^verbatim>\<open>Date.now()\<close>, and the arithmetic of
  numbers: \<open>add h x y\<close> is the value of \<^verbatim>\<open>x + y\<close>, the sum of the two doubles rounded to a
  double. Nothing is assumed of \<open>add\<close>.
\<close>

record host =
  newLayer :: "rat \<Rightarrow> Layer"
  rootLayer :: Layer
  now :: "nat \<Rightarrow> int"
  add :: "rat \<Rightarrow> rat \<Rightarrow> rat"

text \<open>
  The painter's fields, the store of layer objects, the store of configuration objects
  and the number of clock readings taken so far. The list of hover mirrors is not
  modelled: the model covers a painter whose \<^verbatim>\<open>_hoverElements\<close> is empty.
\<close>

record painter =
  heap :: "addr \<Rightarrow> Layer"
  nextAddr :: addr
  singleCanvas :: bool
  zlevelList :: "rat list"
  layers :: "rat \<rightharpoonup> addr"
  configs :: "addr \<Rightarrow> LayerConfig"
  layerConfig :: "rat \<rightharpoonup> addr"
  needsManuallyCompositing :: bool
  hoverlayer :: "addr option"
  redrawId :: "rat option"
  backgroundColor :: "string option"
  clockReads :: nat

datatype log =
  ZLevelUsedAlready rat
  | LayerNotValid rat
  | UsedByUnknownLayer rat
  | DrawIndexIsMinusOne

text \<open>
  Calls that leave the painter: \<^verbatim>\<open>util.logError\<close> and \<^verbatim>\<open>console.error\<close>,
  \<^verbatim>\<open>layer.clear\<close>, \<^verbatim>\<open>brush\<close> (with the index of the element in the list and the
  \<^verbatim>\<open>isLast\<close> flag), \<^verbatim>\<open>layer.refresh\<close> of a custom layer, and the two canvas calls of
  \<^verbatim>\<open>_compositeManually\<close>. Saving and restoring the drawing context and the flush for
  the \<^verbatim>\<open>wxa\<close> environment are not recorded.
\<close>

datatype event =
  LogError log
  | Clear addr "string option"
  | Brush addr int bool
  | RefreshLayer addr "string option"
  | ClearRect addr
  | DrawImage addr addr

datatype error = TypeError

subsection \<open>Construction\<close>

text \<open>
  The constructor, by whether the root is a canvas. On a single canvas the main layer is
  built (object 0), made engine-built, and registered under \<open>CANVAS_ZLEVEL\<close>. Sizes, the
  device pixel ratio and the DOM root are not modelled. No configuration object has been
  built yet: every address of that store holds an object without options.
\<close>

definition noConfig :: LayerConfig where
  "noConfig = \<lparr> clearColor = Absent, motionBlur = Absent, lastFrameAlpha = Absent \<rparr>"

definition CanvasPainter :: "host \<Rightarrow> bool \<Rightarrow> painter" where
  "CanvasPainter h single =
     (if \<not> single then
        \<lparr> heap = (\<lambda>_. rootLayer h), nextAddr = 0, singleCanvas = False, zlevelList = [],
          layers = Map.empty, configs = (\<lambda>_. noConfig), layerConfig = Map.empty,
          needsManuallyCompositing = False,
          hoverlayer = None, redrawId = None, backgroundColor = None, clockReads = 0 \<rparr>
      else
        \<lparr> heap = (\<lambda>_. rootLayer h)
            (0 := (rootLayer h)\<lparr>builtin := True, zlevel := CANVAS_ZLEVEL\<rparr>),
          nextAddr = 1, singleCanvas = True, zlevelList = [CANVAS_ZLEVEL],
          layers = [CANVAS_ZLEVEL \<mapsto> 0], configs = (\<lambda>_. noConfig),
          layerConfig = Map.empty,
          needsManuallyCompositing = False,
          hoverlayer = None, redrawId = None, backgroundColor = None, clockReads = 0 \<rparr>)"

subsection \<open>The layer registry\<close>

definition isLayerValid :: "Layer option \<Rightarrow> bool" where
  "isLayerValid layer =
     (case layer of
        None \<Rightarrow> False
      | Some l \<Rightarrow>
          if builtin l then True
          else if \<not> has_resize l \<or> \<not> has_refresh l then False
          else True)"

text \<open>
  The scan of \<^verbatim>\<open>insertLayer\<close>: \<^verbatim>\<open>for (i = 0; i < len - 1; i++)\<close>, left at the first \<open>i\<close> with
  \<open>zlevelList[i] < zlevel < zlevelList[i + 1]\<close>. The result is the value of \<open>i\<close> after the loop.
\<close>

function scan :: "rat list \<Rightarrow> rat \<Rightarrow> nat \<Rightarrow> nat" where
  "scan zs z i =
     (if i + 1 < length zs then
        (if zs ! i < z \<and> zs ! (i + 1) > z then i else scan zs z (i + 1))
      else i)"
  by pat_completeness auto
termination
  by (relation "measure (\<lambda>(zs, z, i). length zs - i)") auto

declare scan.simps [simp del]

text \<open>
  The index given to \<^verbatim>\<open>splice\<close>: \<open>i + 1\<close>, where \<open>i\<close> stays \<open>-1\<close> unless the list is not
  empty and the new key is above its first entry.
\<close>

definition insertPos :: "rat list \<Rightarrow> rat \<Rightarrow> nat" where
  "insertPos zs z = (if length zs > 0 \<and> z > zs ! 0 then Suc (scan zs z 0) else 0)"

text \<open>
  \<^verbatim>\<open>insertLayer(zlevel, layer)\<close>: the layer argument is a reference into the store, or null.
  Of the DOM placement only its outcome is kept: a layer that is not virtual ends up
  attached.
\<close>

definition insertLayer :: "rat \<Rightarrow> addr option \<Rightarrow> painter \<Rightarrow> painter \<times> event list" where
  "insertLayer z layer s =
     (if layers s z \<noteq> None then (s, [LogError (ZLevelUsedAlready z)])
      else if \<not> isLayerValid (map_option (heap s) layer) then (s, [LogError (LayerNotValid z)])
      else
        (case layer of
           None \<Rightarrow> (s, [LogError (LayerNotValid z)])
         | Some a \<Rightarrow>
             (let zs = zlevelList s;
                  pos = insertPos zs z;
                  l = heap s a;
                  l' = (if \<not> virtual l then l\<lparr>dom_attached := True\<rparr> else l)
                         \<lparr>has_painter := True\<rparr>
              in (s\<lparr> zlevelList := take pos zs @ z # drop pos zs,
                     layers := (layers s)(z \<mapsto> a),
                     heap := (heap s)(a := l') \<rparr>, []))))"

text \<open>
  The object \<^verbatim>\<open>getLayer\<close> builds for a key without a layer: the new layer with its
  z-level, marked engine-built, with the configuration stored for the key merged in and
  the virtual flag set when asked for.
\<close>

definition createLayer :: "host \<Rightarrow> rat \<Rightarrow> bool \<Rightarrow> painter \<Rightarrow> Layer" where
  "createLayer h z virt s =
     (let l0 = (newLayer h z)\<lparr>zlevel := z, builtin := True\<rparr>;
          l1 = (case layerConfig s z of
                  None \<Rightarrow> l0
                | Some c \<Rightarrow> l0\<lparr>config := merge (config l0) (configs s c)\<rparr>)
      in if virt then l1\<lparr>virtual := True\<rparr> else l1)"

text \<open>
  The key \<^verbatim>\<open>getLayer\<close> looks up: on a single canvas without manual compositing the
  z-level it is given is replaced by \<open>CANVAS_ZLEVEL\<close>.
\<close>

definition layerKey :: "painter \<Rightarrow> rat \<Rightarrow> rat" where
  "layerKey s zlevel0 =
     (if singleCanvas s \<and> \<not> needsManuallyCompositing s then CANVAS_ZLEVEL else zlevel0)"

text \<open>
  \<^verbatim>\<open>getLayer(zlevel, virtual)\<close>: returns the reference, the painter and what
  \<^verbatim>\<open>insertLayer\<close> logged. A new layer is allocated at \<open>nextAddr\<close>.
\<close>

definition getLayer :: "host \<Rightarrow> rat \<Rightarrow> bool \<Rightarrow> painter \<Rightarrow> addr \<times> painter \<times> event list" where
  "getLayer h zlevel0 virt s =
     (let z = layerKey s zlevel0
      in case layers s z of
           Some a \<Rightarrow> (a, s, [])
         | None \<Rightarrow>
             (let a = nextAddr s;
                  s1 = s\<lparr>heap := (heap s)(a := createLayer h z virt s), nextAddr := Suc a\<rparr>
              in case insertLayer z (Some a) s1 of (s2, ev) \<Rightarrow> (a, s2, ev)))"

text \<open>
  \<^verbatim>\<open>delLayer(zlevel)\<close>. \<^verbatim>\<open>layer.dom.parentNode.removeChild\<close> raises a TypeError when the
  layer's canvas has no parent, before anything is changed. \<^verbatim>\<open>util.indexOf\<close> gives \<open>-1\<close> for
  a key that is not in the list, and \<^verbatim>\<open>splice(-1, 1)\<close> removes the last entry.
\<close>

fun indexOf :: "rat list \<Rightarrow> rat \<Rightarrow> nat option" where
  "indexOf [] z = None"
| "indexOf (x # xs) z = (if x = z then Some 0 else map_option Suc (indexOf xs z))"

definition delLayer :: "rat \<Rightarrow> painter \<Rightarrow> error + painter" where
  "delLayer z s =
     (case layers s z of
        None \<Rightarrow> Inr s
      | Some a \<Rightarrow>
          if \<not> dom_attached (heap s a) then Inl TypeError
          else
            (let zs = zlevelList s;
                 zs' = (case indexOf zs z of
                          None \<Rightarrow> butlast zs
                        | Some i \<Rightarrow> take i zs @ drop (Suc i) zs)
             in Inr (s\<lparr> heap := (heap s)(a := (heap s a)\<lparr>dom_attached := False\<rparr>),
                        layers := (layers s)(z := None),
                        zlevelList := zs' \<rparr>)))"

text \<open>
  The body of the loop of \<^verbatim>\<open>configLayer\<close> for the key \<open>k\<close> of the z-level list: the test
  \<^verbatim>\<open>_zlevel === zlevel || _zlevel === zlevel + EL_AFTER_INCREMENTAL_INC\<close> and
  \<^verbatim>\<open>util.merge(layer, layerConfig[zlevel], true)\<close>. A key with no layer in the map gives
  \<^verbatim>\<open>util.merge(undefined, ...)\<close>, and a z-level with no stored configuration gives
  \<^verbatim>\<open>util.merge(layer, undefined, true)\<close>: both change nothing.
\<close>

definition mergeLayerAt :: "host \<Rightarrow> rat \<Rightarrow> rat \<Rightarrow> painter \<Rightarrow> painter" where
  "mergeLayerAt h z k s =
     (if k = z \<or> k = add h z EL_AFTER_INCREMENTAL_INC then
        (case layers s k of
           None \<Rightarrow> s
         | Some a \<Rightarrow>
             (case layerConfig s z of
                None \<Rightarrow> s
              | Some stored \<Rightarrow>
                  s\<lparr>heap := (heap s)(a :=
                      (heap s a)\<lparr>config := merge (config (heap s a)) (configs s stored)\<rparr>)\<rparr>))
      else s)"

text \<open>
  \<^verbatim>\<open>configLayer(zlevel, config)\<close>: the config is a reference into the store of
  configuration objects, or null. When nothing is stored for the z-level the reference
  itself is stored (\<^verbatim>\<open>layerConfig[zlevel] = config\<close>); otherwise the config is merged into
  the stored object, in place.
\<close>

definition configLayer :: "host \<Rightarrow> rat \<Rightarrow> addr option \<Rightarrow> painter \<Rightarrow> painter" where
  "configLayer h z cfg s =
     (case cfg of
        None \<Rightarrow> s
      | Some c \<Rightarrow>
          (let s1 = (case layerConfig s z of
                       None \<Rightarrow> s\<lparr>layerConfig := (layerConfig s)(z \<mapsto> c)\<rparr>
                     | Some stored \<Rightarrow>
                         s\<lparr>configs := (configs s)(stored :=
                             merge (configs s stored) (configs s c))\<rparr>)
           in fold (mergeLayerAt h z) (zlevelList s1) s1))"

subsection \<open>Classification: \<^verbatim>\<open>_updateLayerStatus\<close>\<close>

text \<open>
  \<^verbatim>\<open>eachBuiltinLayer\<close> with a callback that only updates the layer it is given. Reading
  \<^verbatim>\<open>layer.__builtin__\<close> of a key that has no layer in the map raises a TypeError.
\<close>

fun eachBuiltinLayer :: "(Layer \<Rightarrow> Layer) \<Rightarrow> rat list \<Rightarrow> painter \<Rightarrow> error + painter" where
  "eachBuiltinLayer f [] s = Inr s"
| "eachBuiltinLayer f (z # zs) s =
     (case layers s z of
        None \<Rightarrow> Inl TypeError
      | Some a \<Rightarrow>
          eachBuiltinLayer f zs
            (if builtin (heap s a) then s\<lparr>heap := (heap s)(a := f (heap s a))\<rparr> else s))"

text \<open>
  The test for manual compositing on a single canvas: the loop starts at index 1 and
  compares each element with its predecessor.
\<close>

fun differsOrIncremental :: "Displayable list \<Rightarrow> bool" where
  "differsOrIncremental (x # y # rest) =
     (if el_zlevel y \<noteq> el_zlevel x \<or> el_incremental y then True
      else differsOrIncremental (y # rest))"
| "differsOrIncremental _ = False"

definition updatePrevLayer :: "addr option \<Rightarrow> int \<Rightarrow> painter \<Rightarrow> painter" where
  "updatePrevLayer prevLayer idx s =
     (case prevLayer of
        None \<Rightarrow> s
      | Some p \<Rightarrow>
          (let l = heap s p;
               l1 = (if endIndex l \<noteq> idx then l\<lparr>dirty := True\<rparr> else l)
           in s\<lparr>heap := (heap s)(p := l1\<lparr>endIndex := idx\<rparr>)\<rparr>))"

text \<open>
  The part of the loop body under \<^verbatim>\<open>if (layer !== prevLayer)\<close>, for the layer at \<open>a\<close> and
  the list index \<open>i\<close>.
\<close>

definition enterLayer :: "addr \<Rightarrow> addr option \<Rightarrow> int \<Rightarrow> painter \<Rightarrow> painter" where
  "enterLayer a prevLayer i s =
     (let l = (heap s a)\<lparr>used := True\<rparr>;
          l1 = (if startIndex l \<noteq> i then l\<lparr>dirty := True\<rparr> else l);
          l2 = l1\<lparr>startIndex := i\<rparr>;
          l3 = (if \<not> incremental l2 then l2\<lparr>drawIndex := i\<rparr> else l2\<lparr>drawIndex := - 1\<rparr>)
      in updatePrevLayer prevLayer i (s\<lparr>heap := (heap s)(a := l3)\<rparr>))"

text \<open>The part under \<^verbatim>\<open>if (el.__dirty)\<close>.\<close>

definition markDirty :: "addr \<Rightarrow> int \<Rightarrow> painter \<Rightarrow> painter" where
  "markDirty a i s =
     (let l = (heap s a)\<lparr>dirty := True\<rparr>;
          l1 = (if incremental l \<and> drawIndex l < 0 then l\<lparr>drawIndex := i\<rparr> else l)
      in s\<lparr>heap := (heap s)(a := l1)\<rparr>)"

text \<open>
  The walk over the element list, from index \<open>i\<close> with the previous layer and
  \<^verbatim>\<open>incrementalLayerCount\<close>. It returns the painter, the last layer and the log.
\<close>

fun walk :: "host \<Rightarrow> Displayable list \<Rightarrow> int \<Rightarrow> addr option \<Rightarrow> nat \<Rightarrow> painter
    \<Rightarrow> painter \<times> addr option \<times> event list" where
  "walk h [] i prevLayer cnt s = (s, prevLayer, [])"
| "walk h (el # els) i prevLayer cnt s =
     (case (if el_incremental el then
              (case getLayer h (add h (el_zlevel el) INCREMENTAL_INC)
                      (needsManuallyCompositing s) s of
                 (a, s', ev) \<Rightarrow>
                   (a, s'\<lparr>heap := (heap s')(a := (heap s' a)\<lparr>incremental := True\<rparr>)\<rparr>, ev, 1))
            else
              (case getLayer h
                      (add h (el_zlevel el) (if cnt > 0 then EL_AFTER_INCREMENTAL_INC else 0))
                      (needsManuallyCompositing s) s of
                 (a, s', ev) \<Rightarrow> (a, s', ev, cnt)))
      of (a, s1, ev1, cnt1) \<Rightarrow>
        (let ev2 = (if \<not> builtin (heap s1 a) then [LogError (UsedByUnknownLayer (el_zlevel el))]
                    else []);
             s2 = (if Some a \<noteq> prevLayer then enterLayer a prevLayer i s1 else s1);
             s3 = (if el_dirty el then markDirty a i s2 else s2)
         in case walk h els (i + 1) (Some a) cnt1 s3 of
              (s4, lastLayer, ev3) \<Rightarrow> (s4, lastLayer, ev1 @ ev2 @ ev3)))"

text \<open>
  Modelled from the spec: \<^verbatim>\<open>layer.getElementCount()\<close> is a method of \<^verbatim>\<open>Layer.ts\<close>, which is
  not among the sources. The spec speaks of a layer that still holds elements: the size
  of its range.
\<close>

definition getElementCount :: "Layer \<Rightarrow> int" where
  "getElementCount l = endIndex l - startIndex l"

text \<open>The callbacks of the first and of the last \<^verbatim>\<open>eachBuiltinLayer\<close>.\<close>

definition resetFlags :: "Layer \<Rightarrow> Layer" where
  "resetFlags l = l\<lparr>dirty := False, used := False\<rparr>"

definition sweep :: "Layer \<Rightarrow> Layer" where
  "sweep l =
     (let l1 = (if \<not> used l \<and> getElementCount l > 0
                then l\<lparr>dirty := True, startIndex := 0, endIndex := 0, drawIndex := 0\<rparr>
                else l)
      in if dirty l1 \<and> drawIndex l1 < 0 then l1\<lparr>drawIndex := startIndex l1\<rparr> else l1)"

definition updateLayerStatus :: "host \<Rightarrow> Displayable list \<Rightarrow> painter
    \<Rightarrow> error + painter \<times> event list" where
  "updateLayerStatus h list s =
     (case eachBuiltinLayer resetFlags (zlevelList s) s of
        Inl e \<Rightarrow> Inl e
      | Inr s1 \<Rightarrow>
          (let s2 = (if singleCanvas s1 \<and> differsOrIncremental list
                     then s1\<lparr>needsManuallyCompositing := True\<rparr> else s1)
           in case walk h list 0 None 0 s2 of
                (s3, lastLayer, ev) \<Rightarrow>
                  (let s4 = updatePrevLayer lastLayer (int (length list)) s3
                   in case eachBuiltinLayer sweep (zlevelList s4) s4 of
                        Inl e \<Rightarrow> Inl e
                      | Inr s5 \<Rightarrow> Inr (s5, ev))))"

subsection \<open>Painting: \<^verbatim>\<open>_doPaintList\<close>\<close>

text \<open>\<^verbatim>\<open>list[i]\<close> for a number \<open>i\<close>: undefined outside the list.\<close>

definition nth_el :: "Displayable list \<Rightarrow> int \<Rightarrow> Displayable option" where
  "nth_el list i = (if 0 \<le> i \<and> i < int (length list) then Some (list ! nat i) else None)"

definition doPaintEl :: "addr \<Rightarrow> Layer \<Rightarrow> bool \<Rightarrow> int \<Rightarrow> bool \<Rightarrow> event list" where
  "doPaintEl a currentLayer forcePaint i isLast =
     (if dirty currentLayer \<or> forcePaint then [Brush a i isLast] else [])"

text \<open>
  The layers to paint, in the order of the z-level list: engine-built, not the hover
  layer, and dirty or forced.
\<close>

fun layerList :: "painter \<Rightarrow> bool \<Rightarrow> rat list \<Rightarrow> error + addr list" where
  "layerList s paintAll [] = Inr []"
| "layerList s paintAll (z # zs) =
     (case layers s z of
        None \<Rightarrow> Inl TypeError
      | Some a \<Rightarrow>
          (case layerList s paintAll zs of
             Inl e \<Rightarrow> Inl e
           | Inr as \<Rightarrow>
               Inr (if builtin (heap s a) \<and> Some a \<noteq> hoverlayer s
                        \<and> (dirty (heap s a) \<or> paintAll)
                    then a # as else as)))"

text \<open>
  The inner loop \<^verbatim>\<open>for (i = start; i < layer.__endIndex; i++)\<close> over the layer \<open>l\<close> at \<open>a\<close>,
  from index \<open>i\<close> with \<open>n\<close> clock readings taken so far. It returns the events, the value
  of \<open>i\<close> after the loop and the number of clock readings. After each element the clock is
  read when the timer is in use, and the loop is left when more than 15 have elapsed since
  \<open>startTime\<close>.
\<close>

function paintEls :: "host \<Rightarrow> bool \<Rightarrow> bool \<Rightarrow> int \<Rightarrow> addr \<Rightarrow> Layer \<Rightarrow> int \<Rightarrow> nat
    \<Rightarrow> event list \<times> int \<times> nat" where
  "paintEls h paintAll useTimer startTime a l i n =
     (if i < endIndex l then
        (let ev = doPaintEl a l paintAll i (i = endIndex l - 1) in
         if useTimer then
           (if now h n - startTime > 15 then (ev, i, Suc n)
            else (case paintEls h paintAll useTimer startTime a l (i + 1) (Suc n) of
                    (ev', j, n') \<Rightarrow> (ev @ ev', j, n')))
         else (case paintEls h paintAll useTimer startTime a l (i + 1) n of
                 (ev', j, n') \<Rightarrow> (ev @ ev', j, n')))
      else ([], i, n))"
  by pat_completeness auto
termination
  by (relation "measure (\<lambda>(h, paintAll, useTimer, startTime, a, l, i, n). nat (endIndex l - i))")
    auto

declare paintEls.simps [simp del]

text \<open>
  The body of the loop over the layers to paint, for the layer at \<open>a\<close>. It returns the
  painter, the events and whether the layer is left unfinished
  (\<^verbatim>\<open>layer.__drawIndex < layer.__endIndex\<close>). Reading \<^verbatim>\<open>firstEl.incremental\<close> of an undefined
  element raises a TypeError.
\<close>

definition paintLayer :: "host \<Rightarrow> Displayable list \<Rightarrow> bool \<Rightarrow> addr \<Rightarrow> painter
    \<Rightarrow> error + painter \<times> event list \<times> bool" where
  "paintLayer h list paintAll a s =
     (let l = heap s a;
          start = (if paintAll then startIndex l else drawIndex l);
          useTimer = (\<not> paintAll \<and> incremental l);
          startTime = (if useTimer then now h (clockReads s) else 0);
          n = (if useTimer then Suc (clockReads s) else clockReads s);
          clearColor = (if zlevelList s \<noteq> [] \<and> zlevel l = hd (zlevelList s)
                        then backgroundColor s else None);
          cleared =
            (if startIndex l = endIndex l then Inr [Clear a clearColor]
             else if start = startIndex l then
               (case nth_el list start of
                  None \<Rightarrow> Inl TypeError
                | Some firstEl \<Rightarrow>
                    if \<not> el_incremental firstEl \<or> \<not> el_notClear firstEl \<or> paintAll
                    then Inr [Clear a clearColor] else Inr [])
             else Inr [])
      in case cleared of
           Inl e \<Rightarrow> Inl e
         | Inr ev1 \<Rightarrow>
             (let ev2 = (if start = - 1 then [LogError DrawIndexIsMinusOne] else []);
                  start' = (if start = - 1 then startIndex l else start)
              in case paintEls h paintAll useTimer startTime a l start' n of
                   (ev3, i, n') \<Rightarrow>
                     Inr (s\<lparr>heap := (heap s)(a := l\<lparr>drawIndex := i\<rparr>), clockReads := n'\<rparr>,
                          ev1 @ ev2 @ ev3, i < endIndex l)))"

text \<open>
  The loop over the layers to paint. \<open>finished\<close> starts as true and becomes false at each
  layer left unfinished.
\<close>

fun paintLayers :: "host \<Rightarrow> Displayable list \<Rightarrow> bool \<Rightarrow> addr list \<Rightarrow> bool \<Rightarrow> painter
    \<Rightarrow> error + painter \<times> event list \<times> bool" where
  "paintLayers h list paintAll [] finished s = Inr (s, [], finished)"
| "paintLayers h list paintAll (a # as) finished s =
     (case paintLayer h list paintAll a s of
        Inl e \<Rightarrow> Inl e
      | Inr (s1, ev1, unfinished) \<Rightarrow>
          (case paintLayers h list paintAll as (if unfinished then False else finished) s1 of
             Inl e \<Rightarrow> Inl e
           | Inr (s2, ev2, fin) \<Rightarrow> Inr (s2, ev1 @ ev2, fin)))"

definition doPaintList :: "host \<Rightarrow> Displayable list \<Rightarrow> bool \<Rightarrow> painter
    \<Rightarrow> error + painter \<times> event list \<times> bool" where
  "doPaintList h list paintAll s =
     (case layerList s paintAll (zlevelList s) of
        Inl e \<Rightarrow> Inl e
      | Inr as \<Rightarrow> paintLayers h list paintAll as True s)"

subsection \<open>Compositing, the paint pass and \<^verbatim>\<open>refresh\<close>\<close>

text \<open>
  \<^verbatim>\<open>_compositeManually\<close>: the context of the layer \<^verbatim>\<open>getLayer(CANVAS_ZLEVEL)\<close> is cleared and
  every engine-built virtual layer is drawn onto it, in the order of the z-level list.
\<close>

fun drawVirtualLayers :: "addr \<Rightarrow> painter \<Rightarrow> rat list \<Rightarrow> error + event list" where
  "drawVirtualLayers c s [] = Inr []"
| "drawVirtualLayers c s (z # zs) =
     (case layers s z of
        None \<Rightarrow> Inl TypeError
      | Some a \<Rightarrow>
          (case drawVirtualLayers c s zs of
             Inl e \<Rightarrow> Inl e
           | Inr ev \<Rightarrow>
               Inr (if builtin (heap s a) \<and> virtual (heap s a) then DrawImage c a # ev else ev)))"

definition compositeManually :: "host \<Rightarrow> painter \<Rightarrow> error + painter \<times> event list" where
  "compositeManually h s =
     (case getLayer h CANVAS_ZLEVEL False s of
        (c, s1, ev1) \<Rightarrow>
          (case drawVirtualLayers c s1 (zlevelList s1) of
             Inl e \<Rightarrow> Inl e
           | Inr ev2 \<Rightarrow> Inr (s1, ev1 @ ClearRect c # ev2)))"

text \<open>
  A frame callback handed to \<^verbatim>\<open>requestAnimationFrame\<close>: the closure keeps the list, the
  \<^verbatim>\<open>paintAll\<close> flag and the generation token it was created with.
\<close>

type_synonym frame = "Displayable list \<times> bool \<times> rat option"

text \<open>
  \<^verbatim>\<open>_paintList(list, paintAll, redrawId)\<close>: it returns the painter, the events and the
  frame callback it has scheduled, if any.
\<close>

definition paintList :: "host \<Rightarrow> Displayable list \<Rightarrow> bool \<Rightarrow> rat option \<Rightarrow> painter
    \<Rightarrow> error + painter \<times> event list \<times> frame option" where
  "paintList h list paintAll rid s =
     (if redrawId s \<noteq> rid then Inr (s, [], None)
      else
        (case updateLayerStatus h list s of
           Inl e \<Rightarrow> Inl e
         | Inr (s1, ev1) \<Rightarrow>
             (case doPaintList h list paintAll s1 of
                Inl e \<Rightarrow> Inl e
              | Inr (s2, ev2, finished) \<Rightarrow>
                  (case (if needsManuallyCompositing s2 then compositeManually h s2
                         else Inr (s2, [])) of
                     Inl e \<Rightarrow> Inl e
                   | Inr (s3, ev3) \<Rightarrow>
                       Inr (s3, ev1 @ ev2 @ ev3,
                            if \<not> finished then Some (list, paintAll, rid) else None)))))"

text \<open>Running a frame callback: the closure calls \<^verbatim>\<open>_paintList\<close> with what it captured.\<close>

definition runFrame :: "host \<Rightarrow> frame \<Rightarrow> painter \<Rightarrow> error + painter \<times> event list \<times> frame option" where
  "runFrame h f s = (case f of (list, paintAll, rid) \<Rightarrow> paintList h list paintAll rid s)"

text \<open>The loop of \<^verbatim>\<open>refresh\<close> over the custom layers, from position \<open>i\<close> of the z-level list.\<close>

fun refreshCustomLayers :: "painter \<Rightarrow> nat \<Rightarrow> rat list \<Rightarrow> error + event list" where
  "refreshCustomLayers s i [] = Inr []"
| "refreshCustomLayers s i (z # zs) =
     (case layers s z of
        None \<Rightarrow> Inl TypeError
      | Some a \<Rightarrow>
          (case refreshCustomLayers s (Suc i) zs of
             Inl e \<Rightarrow> Inl e
           | Inr ev \<Rightarrow>
               Inr (if \<not> builtin (heap s a) \<and> has_refresh (heap s a)
                    then RefreshLayer a (if i = 0 then backgroundColor s else None) # ev
                    else ev)))"

text \<open>\<^verbatim>\<open>refreshHover\<close> with no hover element: the hover layer, if there is one, is cleared.\<close>

definition refreshHover :: "painter \<Rightarrow> event list" where
  "refreshHover s = (case hoverlayer s of None \<Rightarrow> [] | Some a \<Rightarrow> [Clear a None])"

text \<open>
  \<^verbatim>\<open>refresh(paintAll)\<close>, with the value \<open>r\<close> that \<^verbatim>\<open>Math.random()\<close> returns and the list that
  \<^verbatim>\<open>storage.getDisplayList(true)\<close> returns.
\<close>

definition refresh :: "host \<Rightarrow> rat \<Rightarrow> Displayable list \<Rightarrow> bool \<Rightarrow> painter
    \<Rightarrow> error + painter \<times> event list \<times> frame option" where
  "refresh h r list paintAll s =
     (case paintList h list paintAll (Some r) (s\<lparr>redrawId := Some r\<rparr>) of
        Inl e \<Rightarrow> Inl e
      | Inr (s1, ev1, pending) \<Rightarrow>
          (case refreshCustomLayers s1 0 (zlevelList s1) of
             Inl e \<Rightarrow> Inl e
           | Inr ev2 \<Rightarrow> Inr (s1, ev1 @ ev2 @ refreshHover s1, pending)))"

subsection \<open>Calls on a painter\<close>

text \<open>
  The calls a client makes on a painter, and the two steps it takes on its own: building
  a layer object, which it may then hand to \<^verbatim>\<open>insertLayer\<close>, and building or changing a
  configuration object. A frame callback is a call of \<^verbatim>\<open>_paintList\<close> with the arguments it
  captured. \<open>perform\<close> gives the painter after a call, and nothing when the call raises;
  \<open>run\<close> performs a sequence of calls.
\<close>

datatype call =
  GetLayer rat bool
  | InsertLayer rat "addr option"
  | DelLayer rat
  | ConfigLayer rat "addr option"
  | Refresh rat "Displayable list" bool
  | Frame "Displayable list" bool "rat option"
  | BuildLayer Layer
  | BuildConfig addr LayerConfig

fun perform :: "host \<Rightarrow> call \<Rightarrow> painter \<Rightarrow> painter option" where
  "perform h (GetLayer z v) s = (case getLayer h z v s of (a, s', ev) \<Rightarrow> Some s')"
| "perform h (InsertLayer z l) s = (case insertLayer z l s of (s', ev) \<Rightarrow> Some s')"
| "perform h (DelLayer z) s = (case delLayer z s of Inl e \<Rightarrow> None | Inr s' \<Rightarrow> Some s')"
| "perform h (ConfigLayer z c) s = Some (configLayer h z c s)"
| "perform h (Refresh r list paintAll) s =
     (case refresh h r list paintAll s of Inl e \<Rightarrow> None | Inr (s', ev, pending) \<Rightarrow> Some s')"
| "perform h (Frame list paintAll rid) s =
     (case runFrame h (list, paintAll, rid) s of
        Inl e \<Rightarrow> None
      | Inr (s', ev, pending) \<Rightarrow> Some s')"
| "perform h (BuildLayer l) s =
     Some (s\<lparr>heap := (heap s)(nextAddr s := l), nextAddr := Suc (nextAddr s)\<rparr>)"
| "perform h (BuildConfig c cfg) s = Some (s\<lparr>configs := (configs s)(c := cfg)\<rparr>)"

fun run :: "host \<Rightarrow> call list \<Rightarrow> painter \<Rightarrow> painter option" where
  "run h [] s = Some s"
| "run h (c # cs) s = (case perform h c s of None \<Rightarrow> None | Some s' \<Rightarrow> run h cs s')"

subsection \<open>Example hosts, painters and display lists\<close>

text \<open>
  A layer object as a host might build it, a host whose clock stands still and one whose
  clock advances by 20 at every reading; they serve as concrete inputs. Both add
  exactly, which is what the machine does for the sums the examples need: a sum with a
  zero summand is not rounded.
\<close>

definition freshLayer :: Layer where
  "freshLayer =
     \<lparr> zlevel = 0, builtin = False, dirty = True, used = False, startIndex = 0,
       endIndex = 0, drawIndex = 0, incremental = False, virtual = False,
       has_resize = True, has_refresh = True,
       config = \<lparr> clearColor = Absent, motionBlur = Absent, lastFrameAlpha = Absent \<rparr>,
       dom_attached = False, has_painter = False \<rparr>"

definition quickHost :: host where
  "quickHost =
     \<lparr> newLayer = (\<lambda>_. freshLayer), rootLayer = freshLayer, now = (\<lambda>k. 0),
       add = (\<lambda>x y. x + y) \<rparr>"

definition slowHost :: host where
  "slowHost =
     \<lparr> newLayer = (\<lambda>_. freshLayer), rootLayer = freshLayer, now = (\<lambda>k. 20 * int k),
       add = (\<lambda>x y. x + y) \<rparr>"

text \<open>
  A host whose root canvas stands in a page: the canvas of the main layer has a parent
  node.
\<close>

definition pageHost :: host where
  "pageHost = quickHost\<lparr>rootLayer := freshLayer\<lparr>dom_attached := True\<rparr>\<rparr>"

text \<open>
  A host that adds as the machine does at the z-level \<open>2\<^sup>4\<^sup>4 = 17592186044416\<close>, where
  neighbouring doubles are \<open>1/256\<close> apart: \<open>2\<^sup>4\<^sup>4 + 0.001\<close> is \<open>2\<^sup>4\<^sup>4\<close>, and \<open>2\<^sup>4\<^sup>4 + 0.01\<close> is
  \<open>2\<^sup>4\<^sup>4 + 3/256\<close>. The example that uses this host takes no other sum.
\<close>

definition roundingHost :: host where
  "roundingHost =
     quickHost\<lparr>add := (\<lambda>x y. if x = 17592186044416 \<and> y = 1 / 1000 then x
                          else if x = 17592186044416 \<and> y = 1 / 100 then x + 3 / 256
                          else x + y)\<rparr>"

definition el :: "rat \<Rightarrow> bool \<Rightarrow> bool \<Rightarrow> Displayable" where
  "el z inc d = \<lparr> el_zlevel = z, el_incremental = inc, el_dirty = d, el_notClear = False \<rparr>"

text \<open>
  A painter with engine-built layers at the keys 0 and 5 (objects 0 and 1, both attached)
  and an unregistered custom layer with \<^verbatim>\<open>resize\<close> and \<^verbatim>\<open>refresh\<close> (object 2).
\<close>

definition examplePainter :: painter where
  "examplePainter =
     \<lparr> heap = (\<lambda>_. freshLayer)
         (0 := freshLayer\<lparr>builtin := True, dom_attached := True\<rparr>,
          1 := freshLayer\<lparr>builtin := True, zlevel := 5, dom_attached := True\<rparr>),
       nextAddr = 3, singleCanvas = False, zlevelList = [0, 5],
       layers = [0 \<mapsto> 0, 5 \<mapsto> 1], configs = (\<lambda>_. noConfig), layerConfig = Map.empty,
       needsManuallyCompositing = False, hoverlayer = None, redrawId = None,
       backgroundColor = None, clockReads = 0 \<rparr>"

text \<open>The same painter, where the custom layer (object 2) has no \<^verbatim>\<open>refresh\<close> function.\<close>

definition brokenCustomPainter :: painter where
  "brokenCustomPainter =
     examplePainter\<lparr>heap := (heap examplePainter)(2 := freshLayer\<lparr>has_refresh := False\<rparr>)\<rparr>"

text \<open>
  A painter with the three layers of one z-level: the plain layer at key 0 (object 0), the
  incremental sub-layer at key 0.001 (object 1) and the layer after it at key 0.01
  (object 2); and a configuration object that sets the clear colour, which a caller has
  built at address 0 of the store of configuration objects.
\<close>

definition redConfig :: LayerConfig where
  "redConfig = \<lparr> clearColor = Value ''red'', motionBlur = Absent, lastFrameAlpha = Absent \<rparr>"

definition subLayersPainter :: painter where
  "subLayersPainter =
     \<lparr> heap = (\<lambda>_. freshLayer)
         (0 := freshLayer\<lparr>builtin := True\<rparr>,
          1 := freshLayer\<lparr>builtin := True, zlevel := 1 / 1000, incremental := True\<rparr>,
          2 := freshLayer\<lparr>builtin := True, zlevel := 1 / 100\<rparr>),
       nextAddr = 3, singleCanvas = False, zlevelList = [0, 1 / 1000, 1 / 100],
       layers = [0 \<mapsto> 0, 1 / 1000 \<mapsto> 1, 1 / 100 \<mapsto> 2],
       configs = (\<lambda>_. noConfig)(0 := redConfig), layerConfig = Map.empty,
       needsManuallyCompositing = False, hoverlayer = None, redrawId = None,
       backgroundColor = None, clockReads = 0 \<rparr>"

text \<open>Three dirty incremental elements of one z-level.\<close>

definition I3 :: "Displayable list" where
  "I3 = [el 0 True True, el 0 True True, el 0 True True]"



subsection \<open>Invariants of the registry and of the index fields\<close>

text \<open>
  The registry is well formed when the z-level list holds exactly the keys of the layer
  map and every registered object has been allocated. The constructor establishes this,
  and \<^verbatim>\<open>insertLayer\<close> and \<^verbatim>\<open>delLayer\<close> keep the first part.
\<close>

definition registryOk :: "painter \<Rightarrow> bool" where
  "registryOk s \<longleftrightarrow>
     set (zlevelList s) = dom (layers s) \<and> (\<forall>z a. layers s z = Some a \<longrightarrow> a < nextAddr s)"

text \<open>The bounds the data model states for the draw index of a layer.\<close>

definition inRange :: "Layer \<Rightarrow> bool" where
  "inRange l \<longleftrightarrow> startIndex l \<le> drawIndex l \<and> drawIndex l \<le> endIndex l"

text \<open>
  The bounds that classification and painting keep: the start index is not negative and
  not beyond the end index, the draw index is not beyond the end index, and it is not
  before the start index unless it is the sentinel \<open>-1\<close> of an incremental layer that is
  used, not dirty and holds elements.
\<close>

definition indexOk :: "Layer \<Rightarrow> bool" where
  "indexOk l \<longleftrightarrow>
     0 \<le> startIndex l \<and> startIndex l \<le> endIndex l \<and> drawIndex l \<le> endIndex l
     \<and> (startIndex l \<le> drawIndex l
        \<or> (drawIndex l = - 1 \<and> used l \<and> incremental l \<and> \<not> dirty l
            \<and> startIndex l < endIndex l))"



text \<open>
  From \<open>s\<close> to \<open>s'\<close> the painter stays on a single canvas, or off it, and every registered
  layer stays registered under its key.
\<close>

definition grows :: "painter \<Rightarrow> painter \<Rightarrow> bool" where
  "grows s s' \<longleftrightarrow>
     singleCanvas s' = singleCanvas s \<and> (\<forall>k a. layers s k = Some a \<longrightarrow> layers s' k = Some a)"


text \<open>
  The state of every other engine-built layer during the walk: not dirty unless used, and,
  if used, with a non-empty range and the draw index at the sentinel or inside the range.
\<close>

definition closedRun :: "Layer \<Rightarrow> bool" where
  "closedRun l \<longleftrightarrow>
     (dirty l \<longrightarrow> used l)
     \<and> (used l \<longrightarrow>
          0 \<le> startIndex l \<and> startIndex l < endIndex l
          \<and> (drawIndex l = - 1 \<or> (startIndex l \<le> drawIndex l \<and> drawIndex l < endIndex l))
          \<and> (\<not> incremental l \<longrightarrow> drawIndex l = startIndex l))"



text \<open>One incremental element, dirty and clean.\<close>

definition oneIncremental :: "Displayable list" where
  "oneIncremental = [el 0 True True]"


text \<open>
  Three elements of one z-level, the second of them not incremental, between two
  incremental ones: all dirty, and all clean.
\<close>

definition interleaved :: "Displayable list" where
  "interleaved = [el 0 True True, el 0 False True, el 0 True True]"

definition interleavedClean :: "Displayable list" where
  "interleavedClean = [el 0 True False, el 0 False False, el 0 True False]"

text \<open>One dirty incremental element of the z-level \<open>2\<^sup>4\<^sup>4\<close>.\<close>

definition hugeIncremental :: "Displayable list" where
  "hugeIncremental = [el 17592186044416 True True]"

text \<open>
  A sequence of calls on a single canvas: a layer is asked for, a configuration is built
  and stored, two plain elements of one z-level are painted, a z-level without a layer
  is deleted and a layer is asked for again.
\<close>

definition someCalls :: "call list" where
  "someCalls =
     [GetLayer 7 True, BuildConfig 0 redConfig, ConfigLayer 7 (Some 0),
      Refresh 1 [el 0 False True, el 0 False True] False, DelLayer 5, GetLayer 3 False]"

section \<open>Properties\<close>

subsection \<open>The registry\<close>

lemma scan_bounds:
  assumes "i < length zs"
  shows "i \<le> scan zs z i \<and> scan zs z i < length zs"
  using assms
proof (induction zs z i rule: scan.induct)
  case (1 zs z i)
  show ?case
  proof (cases "i + 1 < length zs \<and> \<not> (zs ! i < z \<and> zs ! (i + 1) > z)")
    case True
    then have eq: "scan zs z i = scan zs z (i + 1)" by (subst scan.simps) auto
    from True 1 have "i + 1 \<le> scan zs z (i + 1) \<and> scan zs z (i + 1) < length zs" by blast
    with eq show ?thesis by simp
  next
    case False
    then have "scan zs z i = i" by (subst scan.simps) auto
    with 1(2) show ?thesis by simp
  qed
qed

lemma scan_found:
  assumes "sorted_wrt (<) zs" "i < length zs" "zs ! i < z" "z \<notin> set zs"
  shows "zs ! scan zs z i < z \<and> (Suc (scan zs z i) < length zs \<longrightarrow> z < zs ! Suc (scan zs z i))"
  using assms
proof (induction zs z i rule: scan.induct)
  case (1 zs z i)
  show ?case
  proof (cases "i + 1 < length zs \<and> \<not> (zs ! i < z \<and> zs ! (i + 1) > z)")
    case True
    then have eq: "scan zs z i = scan zs z (i + 1)" by (subst scan.simps) auto
    from True 1(4) have "zs ! (i + 1) \<le> z" by auto
    moreover have "zs ! (i + 1) \<noteq> z" using 1(5) True by (metis nth_mem)
    ultimately have "zs ! (i + 1) < z" by simp
    with 1(1) True 1(2,5) have "zs ! scan zs z (i + 1) < z \<and>
         (Suc (scan zs z (i + 1)) < length zs \<longrightarrow> z < zs ! Suc (scan zs z (i + 1)))" by blast
    with eq show ?thesis by simp
  next
    case False
    then have eq: "scan zs z i = i" by (subst scan.simps) auto
    from False 1(4) have "Suc i < length zs \<longrightarrow> z < zs ! Suc i" by auto
    with eq 1(4) show ?thesis by simp
  qed
qed

lemma sorted_insert_at:
  assumes "sorted_wrt (<) (zs :: rat list)" "p \<le> length zs"
    "\<forall>j<p. zs ! j < z" "\<forall>j. p \<le> j \<and> j < length zs \<longrightarrow> z < zs ! j"
  shows "sorted_wrt (<) (take p zs @ z # drop p zs)"
proof -
  have a: "sorted_wrt (<) (take p zs)" "sorted_wrt (<) (drop p zs)"
    using assms(1) by (simp_all add: sorted_wrt_take sorted_wrt_drop)
  have b: "\<forall>x\<in>set (take p zs). x < z"
    using assms(2,3) by (auto simp: in_set_conv_nth)
  have c: "\<forall>y\<in>set (drop p zs). z < y"
    using assms(2,4) by (auto simp: in_set_conv_nth)
  have d: "\<forall>x\<in>set (take p zs). \<forall>y\<in>set (drop p zs). x < y"
    using b c by fastforce
  show ?thesis using a b c d by (auto simp: sorted_wrt_append)
qed

lemma insert_pos_sorted:
  assumes "sorted_wrt (<) zs" "z \<notin> set zs"
  shows "sorted_wrt (<) (take (insertPos zs z) zs @ z # drop (insertPos zs z) zs)"
proof (cases "length zs > 0 \<and> z > zs ! 0")
  case True
  let ?i = "scan zs z 0"
  have bnd: "?i < length zs" using scan_bounds[of 0 zs z] True by simp
  have fnd: "zs ! ?i < z" "Suc ?i < length zs \<longrightarrow> z < zs ! Suc ?i"
    using scan_found[OF assms(1) _ _ assms(2), of 0] True by auto
  have lo: "\<forall>j<Suc ?i. zs ! j < z"
  proof (intro allI impI)
    fix j assume "j < Suc ?i"
    then have "j = ?i \<or> j < ?i" by auto
    then show "zs ! j < z"
    proof
      assume "j = ?i" then show ?thesis using fnd by simp
    next
      assume "j < ?i"
      then have "zs ! j < zs ! ?i" using assms(1) bnd by (simp add: sorted_wrt_nth_less)
      then show ?thesis using fnd by simp
    qed
  qed
  have hi: "\<forall>j. Suc ?i \<le> j \<and> j < length zs \<longrightarrow> z < zs ! j"
  proof (intro allI impI)
    fix j assume j: "Suc ?i \<le> j \<and> j < length zs"
    then have s: "z < zs ! Suc ?i" using fnd by auto
    from j have "j = Suc ?i \<or> Suc ?i < j" by auto
    then show "z < zs ! j"
    proof
      assume "j = Suc ?i" then show ?thesis using s by simp
    next
      assume "Suc ?i < j"
      then have "zs ! Suc ?i < zs ! j" using assms(1) j by (simp add: sorted_wrt_nth_less)
      then show ?thesis using s by simp
    qed
  qed
  show ?thesis using True sorted_insert_at[OF assms(1) _ lo hi] bnd by (simp add: insertPos_def)
next
  case False
  show ?thesis
  proof (cases zs)
    case Nil
    then show ?thesis by (simp add: insertPos_def)
  next
    case (Cons x xs)
    with False have "z \<le> x" by simp
    moreover have "z \<noteq> x" using assms(2) Cons by auto
    ultimately have "z < x" by simp
    then show ?thesis using assms(1) Cons False by (auto simp: insertPos_def)
  qed
qed

lemma indexOf_None: "indexOf zs z = None \<longleftrightarrow> z \<notin> set zs"
  by (induction zs) auto

lemma indexOf_Some:
  "indexOf zs z = Some i \<Longrightarrow> i < length zs \<and> zs ! i = z"
  by (induction zs arbitrary: i) (auto split: if_splits)

lemma remove_nth_set:
  assumes "distinct zs" "i < length zs"
  shows "set (take i zs @ drop (Suc i) zs) = set zs - {zs ! i}"
proof -
  have zs: "zs = take i zs @ zs ! i # drop (Suc i) zs"
    using assms(2) by (simp add: id_take_nth_drop)
  then have "distinct (take i zs @ zs ! i # drop (Suc i) zs)" using assms(1) by simp
  then have "zs ! i \<notin> set (take i zs)" "zs ! i \<notin> set (drop (Suc i) zs)" by auto
  moreover have "set zs = set (take i zs) \<union> {zs ! i} \<union> set (drop (Suc i) zs)"
    by (subst zs) auto
  ultimately show ?thesis by auto
qed

lemma remove_nth_sorted:
  assumes "sorted_wrt (<) (zs :: rat list)"
  shows "sorted_wrt (<) (take i zs @ drop (Suc i) zs)"
proof -
  have "sorted_wrt (<) (take i zs @ drop i zs)" using assms by simp
  then have a: "sorted_wrt (<) (take i zs) \<and> sorted_wrt (<) (drop i zs)
    \<and> (\<forall>x\<in>set (take i zs). \<forall>y\<in>set (drop i zs). x < y)"
    unfolding sorted_wrt_append by blast
  have "drop (Suc i) zs = drop 1 (drop i zs)" by simp
  then have b: "sorted_wrt (<) (drop (Suc i) zs)"
    using a sorted_wrt_drop by metis
  have c: "set (drop (Suc i) zs) \<subseteq> set (drop i zs)"
    by (metis set_drop_subset_set_drop Suc_n_not_le_n nat_le_linear)
  have "\<forall>x\<in>set (take i zs). \<forall>y\<in>set (drop (Suc i) zs). x < y"
    using a c by blast
  then show ?thesis using a b by (simp only: sorted_wrt_append)
qed

lemma set_insert_at: "p \<le> length zs \<Longrightarrow> set (take p zs @ z # drop p zs) = insert z (set zs)"
proof -
  have "set zs = set (take p zs @ drop p zs)" by simp
  then show ?thesis by (simp only: set_append set_simps) auto
qed

lemma insert_pos_le: "insertPos zs z \<le> length zs"
  using scan_bounds[of 0 zs z] by (auto simp: insertPos_def)

text \<open>
  C5. If the z-level list is strictly ascending and holds exactly the keys of the layer
  map, then after any \<^verbatim>\<open>insertLayer\<close> it is still strictly ascending and still holds
  exactly the keys of the map; when the key is new and the layer valid, its keys are the
  old ones and the new one; and after a \<^verbatim>\<open>delLayer\<close> that returns it is again strictly
  ascending and holds exactly the keys of the map.
\<close>

theorem zlevelList_stays_sorted:
  assumes "sorted_wrt (<) (zlevelList s)" and "set (zlevelList s) = dom (layers s)"
  shows "sorted_wrt (<) (zlevelList (fst (insertLayer z layer s)))
     \<and> set (zlevelList (fst (insertLayer z layer s))) = dom (layers (fst (insertLayer z layer s)))
     \<and> (layers s z = None \<and> isLayerValid (map_option (heap s) layer) \<longrightarrow>
          set (zlevelList (fst (insertLayer z layer s))) = insert z (set (zlevelList s)))
     \<and> (\<forall>s'. delLayer z s = Inr s' \<longrightarrow>
          sorted_wrt (<) (zlevelList s') \<and> set (zlevelList s') = dom (layers s'))"
proof -
  let ?zs = "zlevelList s"
  let ?pos = "insertPos ?zs z"
  have ins: "sorted_wrt (<) (zlevelList (fst (insertLayer z layer s)))
     \<and> set (zlevelList (fst (insertLayer z layer s))) = dom (layers (fst (insertLayer z layer s)))
     \<and> (layers s z = None \<and> isLayerValid (map_option (heap s) layer) \<longrightarrow>
          set (zlevelList (fst (insertLayer z layer s))) = insert z (set (zlevelList s)))"
  proof (cases "layers s z = None \<and> isLayerValid (map_option (heap s) layer)")
    case False
    then have "fst (insertLayer z layer s) = s"
      by (auto simp: insertLayer_def split: option.splits)
    with assms False show ?thesis by auto
  next
    case True
    then obtain a where a: "layer = Some a" by (cases layer) (auto simp: isLayerValid_def)
    from True assms(2) have notin: "z \<notin> set ?zs" by (auto simp: dom_def)
    have zl: "zlevelList (fst (insertLayer z layer s)) = take ?pos ?zs @ z # drop ?pos ?zs"
      using True a by (simp add: insertLayer_def Let_def)
    have ly: "layers (fst (insertLayer z layer s)) = (layers s)(z \<mapsto> a)"
      using True a by (simp add: insertLayer_def Let_def)
    have st: "set (take ?pos ?zs @ z # drop ?pos ?zs) = insert z (set ?zs)"
      by (rule set_insert_at) (rule insert_pos_le)
    show ?thesis
      using insert_pos_sorted[OF assms(1) notin] st assms(2) by (simp only: zl ly) auto
  qed
  have del: "\<forall>s'. delLayer z s = Inr s' \<longrightarrow>
          sorted_wrt (<) (zlevelList s') \<and> set (zlevelList s') = dom (layers s')"
  proof (intro allI impI)
    fix s' assume d: "delLayer z s = Inr s'"
    show "sorted_wrt (<) (zlevelList s') \<and> set (zlevelList s') = dom (layers s')"
    proof (cases "layers s z")
      case None
      with d assms show ?thesis by (simp add: delLayer_def)
    next
      case (Some a)
      then have "z \<in> set ?zs" using assms(2) by auto
      then obtain i where i: "indexOf ?zs z = Some i"
        using indexOf_None[of ?zs z] by (cases "indexOf ?zs z") auto
      then have i': "i < length ?zs" "?zs ! i = z" using indexOf_Some by auto
      from d Some i have s': "zlevelList s' = take i ?zs @ drop (Suc i) ?zs"
        "layers s' = (layers s)(z := None)"
        by (auto simp: delLayer_def Let_def split: if_splits)
      have dist: "distinct ?zs" using assms(1) by (simp add: strict_sorted_iff)
      have "set (zlevelList s') = set ?zs - {z}"
        using remove_nth_set[OF dist i'(1)] i'(2) s'(1) by simp
      then show ?thesis using remove_nth_sorted[OF assms(1), of i] s' assms(2) by auto
    qed
  qed
  from ins del show ?thesis by blast
qed

lemma scan_singleton: "scan [x] z 0 = 0"
  by (subst scan.simps) simp

lemma scan_example: "scan [0, 5] 3 0 = 0"
  by code_simp

theorem zlevelList_stays_sorted_witness:
  "sorted_wrt (<) (zlevelList examplePainter)
   \<and> set (zlevelList examplePainter) = dom (layers examplePainter)
   \<and> layers examplePainter 3 = None
   \<and> isLayerValid (map_option (heap examplePainter) (Some 2))
   \<and> zlevelList (fst (insertLayer 3 (Some 2) examplePainter)) = [0, 3, 5]
   \<and> sorted_wrt (<) (zlevelList (fst (insertLayer 3 (Some 2) examplePainter)))
   \<and> set (zlevelList (fst (insertLayer 3 (Some 2) examplePainter)))
       = insert 3 (set (zlevelList examplePainter))
   \<and> (\<exists>s'. delLayer 5 examplePainter = Inr s' \<and> zlevelList s' = [0]
         \<and> sorted_wrt (<) (zlevelList s'))"
proof -
  have h1: "sorted_wrt (<) (zlevelList examplePainter)"
    by (simp add: examplePainter_def)
  have h2: "set (zlevelList examplePainter) = dom (layers examplePainter)"
    by (auto simp: examplePainter_def)
  have h3: "layers examplePainter 3 = None" by (simp add: examplePainter_def)
  have h4: "isLayerValid (map_option (heap examplePainter) (Some 2))"
    by (simp add: examplePainter_def isLayerValid_def freshLayer_def)
  have e1: "zlevelList (fst (insertLayer 3 (Some 2) examplePainter)) = [0, 3, 5]"
    by (simp add: insertLayer_def examplePainter_def isLayerValid_def freshLayer_def
        insertPos_def scan_example Let_def)
  have e2: "\<exists>s'. delLayer 5 examplePainter = Inr s' \<and> zlevelList s' = [0]"
    by (simp add: delLayer_def examplePainter_def freshLayer_def Let_def)
  from zlevelList_stays_sorted[OF h1 h2, of 3 "Some 2"] h3 h4
  have c1: "sorted_wrt (<) (zlevelList (fst (insertLayer 3 (Some 2) examplePainter)))"
    and c2: "set (zlevelList (fst (insertLayer 3 (Some 2) examplePainter)))
       = insert 3 (set (zlevelList examplePainter))"
    by blast+
  from zlevelList_stays_sorted[OF h1 h2, of 5 "Some 2"] e2
  have c3: "\<exists>s'. delLayer 5 examplePainter = Inr s' \<and> zlevelList s' = [0]
         \<and> sorted_wrt (<) (zlevelList s')"
    by blast
  from h1 h2 h3 h4 e1 c1 c2 c3 show ?thesis by (intro conjI)
qed

text \<open>
  C6. When a layer is already registered under the key, or the supplied layer is not
  engine-built and lacks a \<^verbatim>\<open>resize\<close> or a \<^verbatim>\<open>refresh\<close> function, \<^verbatim>\<open>insertLayer\<close> logs one
  error and returns the painter as it was: the layer map, the z-level list and every
  layer object are unchanged.
\<close>

theorem insertLayer_rejected:
  assumes "layers s z \<noteq> None
     \<or> (\<exists>a. layer = Some a \<and> \<not> builtin (heap s a)
            \<and> (\<not> has_resize (heap s a) \<or> \<not> has_refresh (heap s a)))"
  shows "insertLayer z layer s
     = (s, [LogError (if layers s z \<noteq> None then ZLevelUsedAlready z else LayerNotValid z)])"
  using assms by (auto simp: insertLayer_def isLayerValid_def)

theorem insertLayer_rejected_witness:
  "layers examplePainter 5 \<noteq> None
   \<and> insertLayer 5 (Some 2) examplePainter
       = (examplePainter, [LogError (ZLevelUsedAlready 5)])
   \<and> layers brokenCustomPainter 3 = None
   \<and> \<not> builtin (heap brokenCustomPainter 2)
   \<and> \<not> has_refresh (heap brokenCustomPainter 2)
   \<and> insertLayer 3 (Some 2) brokenCustomPainter
       = (brokenCustomPainter, [LogError (LayerNotValid 3)])"
proof -
  have h1: "layers examplePainter 5 \<noteq> None" by (simp add: examplePainter_def)
  have h2: "layers brokenCustomPainter 3 = None"
    by (simp add: brokenCustomPainter_def examplePainter_def)
  have h3: "\<not> builtin (heap brokenCustomPainter 2)"
    by (simp add: brokenCustomPainter_def freshLayer_def)
  have h4: "\<not> has_refresh (heap brokenCustomPainter 2)"
    by (simp add: brokenCustomPainter_def freshLayer_def)
  have c1: "insertLayer 5 (Some 2) examplePainter
       = (examplePainter, [LogError (ZLevelUsedAlready 5)])"
    using insertLayer_rejected[of examplePainter 5 "Some 2"] h1 by simp
  have c2: "insertLayer 3 (Some 2) brokenCustomPainter
       = (brokenCustomPainter, [LogError (LayerNotValid 3)])"
    using insertLayer_rejected[of brokenCustomPainter 3 "Some 2"] h2 h3 h4 by simp
  from h1 c1 h2 h3 h4 c2 show ?thesis by (intro conjI)
qed

subsection \<open>Configuration\<close>

lemma overwrite_idem: "overwrite (overwrite x c) c = overwrite x c"
  by (simp add: overwrite_def split: field.splits)

lemma overwrite_self: "overwrite x x = x"
  by (simp add: overwrite_def split: field.splits)

lemma overwrite_absorb: "overwrite (overwrite x (overwrite old c)) c = overwrite x (overwrite old c)"
  by (simp add: overwrite_def split: field.splits)

lemma merge_idem: "merge (merge x c) c = merge x c"
  by (simp add: merge_def overwrite_idem)

lemma merge_self: "merge x x = x"
  by (simp add: merge_def overwrite_self)

lemma merge_absorb: "merge (merge x (merge old c)) c = merge x (merge old c)"
  by (simp add: merge_def overwrite_absorb)

lemma fold_mergeLayerAt:
  "layers (fold (mergeLayerAt h z) ks s) = layers s
   \<and> zlevelList (fold (mergeLayerAt h z) ks s) = zlevelList s
   \<and> layerConfig (fold (mergeLayerAt h z) ks s) = layerConfig s
   \<and> configs (fold (mergeLayerAt h z) ks s) = configs s
   \<and> singleCanvas (fold (mergeLayerAt h z) ks s) = singleCanvas s
   \<and> needsManuallyCompositing (fold (mergeLayerAt h z) ks s) = needsManuallyCompositing s
   \<and> (\<forall>a. heap (fold (mergeLayerAt h z) ks s) a =
        (if \<exists>k\<in>set ks. (k = z \<or> k = add h z EL_AFTER_INCREMENTAL_INC) \<and> layers s k = Some a
         then (case layerConfig s z of
                 None \<Rightarrow> heap s a
               | Some st \<Rightarrow> (heap s a)\<lparr>config := merge (config (heap s a)) (configs s st)\<rparr>)
         else heap s a))"
proof (induction ks arbitrary: s)
  case Nil
  then show ?case by simp
next
  case (Cons k ks)
  let ?s1 = "mergeLayerAt h z k s"
  have f: "layers ?s1 = layers s" "zlevelList ?s1 = zlevelList s" "layerConfig ?s1 = layerConfig s"
    "configs ?s1 = configs s" "singleCanvas ?s1 = singleCanvas s"
    "needsManuallyCompositing ?s1 = needsManuallyCompositing s"
    by (simp_all add: mergeLayerAt_def split: option.splits)
  have hp: "\<And>a. heap ?s1 a =
     (if (k = z \<or> k = add h z EL_AFTER_INCREMENTAL_INC) \<and> layers s k = Some a
      then (case layerConfig s z of
                 None \<Rightarrow> heap s a
               | Some st \<Rightarrow> (heap s a)\<lparr>config := merge (config (heap s a)) (configs s st)\<rparr>)
      else heap s a)"
    by (auto simp: mergeLayerAt_def split: option.splits)
  have ih: "layers (fold (mergeLayerAt h z) ks ?s1) = layers ?s1
   \<and> zlevelList (fold (mergeLayerAt h z) ks ?s1) = zlevelList ?s1
   \<and> layerConfig (fold (mergeLayerAt h z) ks ?s1) = layerConfig ?s1
   \<and> configs (fold (mergeLayerAt h z) ks ?s1) = configs ?s1
   \<and> singleCanvas (fold (mergeLayerAt h z) ks ?s1) = singleCanvas ?s1
   \<and> needsManuallyCompositing (fold (mergeLayerAt h z) ks ?s1) = needsManuallyCompositing ?s1
   \<and> (\<forall>a. heap (fold (mergeLayerAt h z) ks ?s1) a =
        (if \<exists>k\<in>set ks. (k = z \<or> k = add h z EL_AFTER_INCREMENTAL_INC) \<and> layers ?s1 k = Some a
         then (case layerConfig ?s1 z of
                 None \<Rightarrow> heap ?s1 a
               | Some st \<Rightarrow> (heap ?s1 a)\<lparr>config := merge (config (heap ?s1 a)) (configs ?s1 st)\<rparr>)
         else heap ?s1 a))"
    by (rule Cons.IH)
  show ?case unfolding fold_simps using ih f hp
    by (auto simp: merge_idem split: option.splits)
qed

text \<open>
  C10 (as amended). \<^verbatim>\<open>configLayer(zlevel, config)\<close> with a non-null config: when no
  configuration is stored for the z-level the config object itself becomes the stored
  one, otherwise the config is merged into the stored object, in place. No other
  configuration object changes, and afterwards every option of the config is set in the
  stored configuration. The z-level list and the layer map are as before. The stored
  configuration is merged into exactly the layer objects registered, at a key of the
  list, under \<open>zlevel\<close> or under the double \<open>zlevel + 0.01\<close>: every option of the config is
  then set in them, and every other layer object is unchanged. The incremental sub-layer
  at the double \<open>zlevel + 0.001\<close> is unchanged when that key differs from \<open>zlevel\<close> and from
  \<open>zlevel + 0.01\<close> and the object is registered under no other key.
\<close>

theorem configLayer_effect:
  "(let s' = configLayer h z (Some c) s;
        stored = (case layerConfig s z of None \<Rightarrow> c | Some st \<Rightarrow> st)
    in layerConfig s' = (layerConfig s)(z \<mapsto> stored)
       \<and> configs s' stored =
           (case layerConfig s z of
              None \<Rightarrow> configs s c
            | Some st \<Rightarrow> merge (configs s st) (configs s c))
       \<and> (\<forall>x. x \<noteq> stored \<longrightarrow> configs s' x = configs s x)
       \<and> merge (configs s' stored) (configs s c) = configs s' stored
       \<and> zlevelList s' = zlevelList s
       \<and> layers s' = layers s
       \<and> (\<forall>a. heap s' a =
            (if \<exists>k\<in>set (zlevelList s).
                  (k = z \<or> k = add h z EL_AFTER_INCREMENTAL_INC) \<and> layers s k = Some a
             then (heap s a)\<lparr>config := merge (config (heap s a)) (configs s' stored)\<rparr>
             else heap s a))
       \<and> (\<forall>a. (\<exists>k\<in>set (zlevelList s).
                  (k = z \<or> k = add h z EL_AFTER_INCREMENTAL_INC) \<and> layers s k = Some a)
             \<longrightarrow> merge (config (heap s' a)) (configs s c) = config (heap s' a))
       \<and> (\<forall>b. layers s (add h z INCREMENTAL_INC) = Some b
              \<and> add h z INCREMENTAL_INC \<noteq> z
              \<and> add h z INCREMENTAL_INC \<noteq> add h z EL_AFTER_INCREMENTAL_INC
              \<and> (\<forall>k. layers s k = Some b \<longrightarrow> k = add h z INCREMENTAL_INC)
             \<longrightarrow> heap s' b = heap s b))"
proof -
  define stored where "stored = (case layerConfig s z of None \<Rightarrow> c | Some st \<Rightarrow> st)"
  define s1 where "s1 = (case layerConfig s z of
                       None \<Rightarrow> s\<lparr>layerConfig := (layerConfig s)(z \<mapsto> c)\<rparr>
                     | Some st \<Rightarrow>
                         s\<lparr>configs := (configs s)(st := merge (configs s st) (configs s c))\<rparr>)"
  define s' where "s' = configLayer h z (Some c) s"
  have s': "s' = fold (mergeLayerAt h z) (zlevelList s1) s1"
    by (simp add: s'_def configLayer_def Let_def s1_def)
  have s1f: "heap s1 = heap s" "layers s1 = layers s" "zlevelList s1 = zlevelList s"
    by (simp_all add: s1_def split: option.splits)
  have lc1: "layerConfig s1 = (layerConfig s)(z \<mapsto> stored)"
    by (auto simp: s1_def stored_def split: option.splits)
  then have lcz: "layerConfig s1 z = Some stored" by simp
  have cf1: "configs s1 stored =
           (case layerConfig s z of
              None \<Rightarrow> configs s c
            | Some st \<Rightarrow> merge (configs s st) (configs s c))"
    by (simp add: s1_def stored_def split: option.splits)
  have cf2: "\<forall>x. x \<noteq> stored \<longrightarrow> configs s1 x = configs s x"
    by (simp add: s1_def stored_def split: option.splits)
  note F = fold_mergeLayerAt[of h z "zlevelList s1" s1, folded s', unfolded s1f lcz option.case]
  have a: "layerConfig s' = (layerConfig s)(z \<mapsto> stored)"
    "zlevelList s' = zlevelList s" "layers s' = layers s" "configs s' = configs s1"
    using F lc1 by simp_all
  have hp: "\<And>a. heap s' a =
            (if \<exists>k\<in>set (zlevelList s).
                  (k = z \<or> k = add h z EL_AFTER_INCREMENTAL_INC) \<and> layers s k = Some a
             then (heap s a)\<lparr>config := merge (config (heap s a)) (configs s' stored)\<rparr>
             else heap s a)"
  proof -
    fix a
    from F have "heap s' a =
            (if \<exists>k\<in>set (zlevelList s).
                  (k = z \<or> k = add h z EL_AFTER_INCREMENTAL_INC) \<and> layers s k = Some a
             then (heap s a)\<lparr>config := merge (config (heap s a)) (configs s1 stored)\<rparr>
             else heap s a)" by blast
    then show "heap s' a =
            (if \<exists>k\<in>set (zlevelList s).
                  (k = z \<or> k = add h z EL_AFTER_INCREMENTAL_INC) \<and> layers s k = Some a
             then (heap s a)\<lparr>config := merge (config (heap s a)) (configs s' stored)\<rparr>
             else heap s a)" by (simp only: a(4))
  qed
  have m0: "merge (configs s' stored) (configs s c) = configs s' stored"
    unfolding a(4) cf1 by (simp add: merge_self merge_idem split: option.splits)
  have m: "\<And>x. merge (merge x (configs s' stored)) (configs s c) = merge x (configs s' stored)"
    unfolding a(4) cf1 by (simp add: merge_absorb merge_idem split: option.splits)
  have b: "\<forall>a. (\<exists>k\<in>set (zlevelList s).
                  (k = z \<or> k = add h z EL_AFTER_INCREMENTAL_INC) \<and> layers s k = Some a)
             \<longrightarrow> merge (config (heap s' a)) (configs s c) = config (heap s' a)"
    using hp m by simp
  have d: "\<forall>b. layers s (add h z INCREMENTAL_INC) = Some b
              \<and> add h z INCREMENTAL_INC \<noteq> z
              \<and> add h z INCREMENTAL_INC \<noteq> add h z EL_AFTER_INCREMENTAL_INC
              \<and> (\<forall>k. layers s k = Some b \<longrightarrow> k = add h z INCREMENTAL_INC)
             \<longrightarrow> heap s' b = heap s b"
  proof (intro allI impI)
    fix b assume hb: "layers s (add h z INCREMENTAL_INC) = Some b
              \<and> add h z INCREMENTAL_INC \<noteq> z
              \<and> add h z INCREMENTAL_INC \<noteq> add h z EL_AFTER_INCREMENTAL_INC
              \<and> (\<forall>k. layers s k = Some b \<longrightarrow> k = add h z INCREMENTAL_INC)"
    then have "\<not> (\<exists>k\<in>set (zlevelList s).
                  (k = z \<or> k = add h z EL_AFTER_INCREMENTAL_INC) \<and> layers s k = Some b)"
      by metis
    then show "heap s' b = heap s b" using hp[of b] by (simp only: if_False)
  qed
  have c1: "configs s' stored =
           (case layerConfig s z of
              None \<Rightarrow> configs s c
            | Some st \<Rightarrow> merge (configs s st) (configs s c))"
    unfolding a(4) by (rule cf1)
  have c2: "\<forall>x. x \<noteq> stored \<longrightarrow> configs s' x = configs s x"
    unfolding a(4) by (rule cf2)
  show ?thesis
    unfolding Let_def stored_def[symmetric] s'_def[symmetric]
    using a(1) c1 c2 m0 a(2,3) hp b d by (intro conjI allI) blast+
qed


theorem configLayer_effect_witness:
  "layerConfig (configLayer quickHost 0 (Some 0) subLayersPainter) 0 = Some 0
   \<and> configs (configLayer quickHost 0 (Some 0) subLayersPainter) 0 = redConfig
   \<and> config (heap (configLayer quickHost 0 (Some 0) subLayersPainter) 0) = redConfig
   \<and> config (heap (configLayer quickHost 0 (Some 0) subLayersPainter) 2) = redConfig
   \<and> layers subLayersPainter (add quickHost 0 INCREMENTAL_INC) = Some 1
   \<and> add quickHost 0 INCREMENTAL_INC \<noteq> 0
   \<and> add quickHost 0 INCREMENTAL_INC \<noteq> add quickHost 0 EL_AFTER_INCREMENTAL_INC
   \<and> heap (configLayer quickHost 0 (Some 0) subLayersPainter) 1 = heap subLayersPainter 1"
proof -
  let ?s' = "configLayer quickHost 0 (Some 0) subLayersPainter"
  note T = configLayer_effect[where h = quickHost and s = subLayersPainter and z = 0 and c = 0,
      unfolded Let_def]
  have st: "(case layerConfig subLayersPainter 0 of None \<Rightarrow> 0 | Some st \<Rightarrow> st) = (0 :: nat)"
    by (simp add: subLayersPainter_def)
  have cs: "(case layerConfig subLayersPainter 0 of
              None \<Rightarrow> configs subLayersPainter 0
            | Some st \<Rightarrow> merge (configs subLayersPainter st) (configs subLayersPainter 0))
          = redConfig"
    by (simp add: subLayersPainter_def)
  have c1: "layerConfig ?s' 0 = Some 0"
    using T st by simp
  have c0: "configs ?s' 0 = redConfig"
    using T st cs by simp
  have t0: "\<exists>k\<in>set (zlevelList subLayersPainter).
      (k = 0 \<or> k = add quickHost 0 EL_AFTER_INCREMENTAL_INC) \<and> layers subLayersPainter k = Some 0"
    by (rule bexI[of _ 0]) (simp_all add: subLayersPainter_def)
  have t2: "\<exists>k\<in>set (zlevelList subLayersPainter).
      (k = 0 \<or> k = add quickHost 0 EL_AFTER_INCREMENTAL_INC) \<and> layers subLayersPainter k = Some 2"
    by (rule bexI[of _ "1 / 100"])
      (simp_all add: subLayersPainter_def EL_AFTER_INCREMENTAL_INC_def quickHost_def)
  have m: "merge (config (heap subLayersPainter 0)) redConfig = redConfig"
    "merge (config (heap subLayersPainter 2)) redConfig = redConfig"
    by (simp_all add: subLayersPainter_def freshLayer_def merge_def overwrite_def redConfig_def)
  have c2: "config (heap ?s' 0) = redConfig"
    using T t0 st c0 m by simp
  have c3: "config (heap ?s' 2) = redConfig"
    using T t2 st c0 m by simp
  have h1: "layers subLayersPainter (add quickHost 0 INCREMENTAL_INC) = Some 1"
    by (simp add: subLayersPainter_def INCREMENTAL_INC_def quickHost_def)
  have h2: "\<forall>k. layers subLayersPainter k = Some 1 \<longrightarrow> k = add quickHost 0 INCREMENTAL_INC"
    by (auto simp: subLayersPainter_def INCREMENTAL_INC_def quickHost_def split: if_splits)
  have n1: "add quickHost 0 INCREMENTAL_INC \<noteq> 0"
    by (simp add: quickHost_def INCREMENTAL_INC_def)
  have n2: "add quickHost 0 INCREMENTAL_INC \<noteq> add quickHost 0 EL_AFTER_INCREMENTAL_INC"
    by (simp add: quickHost_def INCREMENTAL_INC_def EL_AFTER_INCREMENTAL_INC_def)
  have c4: "heap ?s' 1 = heap subLayersPainter 1"
    using T h1 h2 n1 n2 by blast
  from c1 c0 c2 c3 h1 n1 n2 c4 show ?thesis by (intro conjI)
qed

text \<open>
  The stored configuration is the caller's object: when the same object has been given
  for two z-levels, a later call for one of them changes what is stored for the other.
\<close>

lemma stored_config_is_shared:
  "(let s1 = configLayer quickHost 0 (Some 0) subLayersPainter;
        s2 = configLayer quickHost 5 (Some 0) s1;
        s3 = s2\<lparr>configs := (configs s2)(1 := noConfig\<lparr>motionBlur := Value True\<rparr>)\<rparr>;
        s4 = configLayer quickHost 0 (Some 1) s3
    in layerConfig s4 0 = Some 0 \<and> layerConfig s4 5 = Some 0
       \<and> motionBlur (configs s3 0) = Absent
       \<and> motionBlur (configs s4 0) = Value True)"
  by (simp add: Let_def configLayer_def mergeLayerAt_def subLayersPainter_def quickHost_def
      merge_def overwrite_def redConfig_def noConfig_def EL_AFTER_INCREMENTAL_INC_def)

subsection \<open>What \<^verbatim>\<open>getLayer\<close> returns\<close>

lemma getLayer_found:
  assumes "layers s (layerKey s z0) = Some a"
  shows "getLayer h z0 v s = (a, s, [])"
  using assms by (simp add: getLayer_def Let_def)

lemma isLayerValid_createLayer: "builtin (createLayer h z v s)"
  by (simp add: createLayer_def Let_def split: option.splits)

lemma getLayer_created:
  assumes "z = layerKey s z0" and "layers s z = None"
  shows "getLayer h z0 v s =
    (nextAddr s,
     s\<lparr> heap := (heap s)(nextAddr s :=
           (if \<not> virtual (createLayer h z v s) then (createLayer h z v s)\<lparr>dom_attached := True\<rparr>
            else createLayer h z v s)\<lparr>has_painter := True\<rparr>),
        nextAddr := Suc (nextAddr s),
        zlevelList := take (insertPos (zlevelList s) z) (zlevelList s) @ z
                        # drop (insertPos (zlevelList s) z) (zlevelList s),
        layers := (layers s)(z \<mapsto> nextAddr s) \<rparr>, [])"
  using assms
  by (simp add: getLayer_def insertLayer_def Let_def isLayerValid_def isLayerValid_createLayer)

text \<open>
  The two outcomes of \<^verbatim>\<open>getLayer\<close>: the registered layer with the painter unchanged, or a
  new engine-built object at the next address, registered under the key.
\<close>

lemma getLayer_result [consumes 1, case_names found created]:
  assumes "getLayer h z0 v s = (a, s', ev)"
  obtains "layers s (layerKey s z0) = Some a" "s' = s" "ev = []"
  | "layers s (layerKey s z0) = None"
    "a = nextAddr s" "ev = []"
    "nextAddr s' = Suc (nextAddr s)"
    "layers s' = (layers s)(layerKey s z0 \<mapsto> nextAddr s)"
    "set (zlevelList s') = insert (layerKey s z0) (set (zlevelList s))"
    "\<And>b. b \<noteq> nextAddr s \<Longrightarrow> heap s' b = heap s b"
    "builtin (heap s' (nextAddr s))"
    "redrawId s' = redrawId s"
proof (cases "layers s (layerKey s z0)")
  case (Some b)
  from getLayer_found[OF Some, of h v] assms have "a = b" "s' = s" "ev = []" by simp_all
  with Some show ?thesis by (intro that(1)) simp_all
next
  case None
  let ?z = "layerKey s z0"
  note c = getLayer_created[OF refl None, of h v]
  from c assms have a: "a = nextAddr s" and e: "ev = []" by simp_all
  from c assms have s': "s' = s\<lparr> heap := (heap s)(nextAddr s :=
           (if \<not> virtual (createLayer h ?z v s) then (createLayer h ?z v s)\<lparr>dom_attached := True\<rparr>
            else createLayer h ?z v s)\<lparr>has_painter := True\<rparr>),
        nextAddr := Suc (nextAddr s),
        zlevelList := take (insertPos (zlevelList s) ?z) (zlevelList s) @ ?z
                        # drop (insertPos (zlevelList s) ?z) (zlevelList s),
        layers := (layers s)(?z \<mapsto> nextAddr s) \<rparr>" by simp
  show ?thesis
  proof (rule that(2)[OF None a e])
    show "nextAddr s' = Suc (nextAddr s)" by (simp add: s')
    show "layers s' = (layers s)(?z \<mapsto> nextAddr s)" by (simp add: s')
    have "zlevelList s' = take (insertPos (zlevelList s) ?z) (zlevelList s) @ ?z
                        # drop (insertPos (zlevelList s) ?z) (zlevelList s)"
      by (simp add: s')
    then show "set (zlevelList s') = insert ?z (set (zlevelList s))"
      by (simp only: set_insert_at[OF insert_pos_le])
    show "\<And>b. b \<noteq> nextAddr s \<Longrightarrow> heap s' b = heap s b" by (simp add: s')
    show "builtin (heap s' (nextAddr s))" by (simp add: s' isLayerValid_createLayer)
    show "redrawId s' = redrawId s" by (simp add: s')
  qed
qed

subsection \<open>The generation token\<close>

lemma getLayer_redrawId: "getLayer h z v s = (a, s', ev) \<Longrightarrow> redrawId s' = redrawId s"
  by (erule getLayer_result) simp_all

lemma eachBuiltinLayer_redrawId:
  "eachBuiltinLayer f zs s = Inr s' \<Longrightarrow> redrawId s' = redrawId s"
proof (induction zs arbitrary: s)
  case Nil
  then show ?case by simp
next
  case (Cons z zs)
  then show ?case by (fastforce split: option.splits if_splits)
qed

lemma updatePrevLayer_redrawId: "redrawId (updatePrevLayer p i s) = redrawId s"
  by (simp add: updatePrevLayer_def Let_def split: option.splits)

lemma enterLayer_redrawId: "redrawId (enterLayer a p i s) = redrawId s"
  by (simp add: enterLayer_def Let_def updatePrevLayer_redrawId)

lemma markDirty_redrawId: "redrawId (markDirty a i s) = redrawId s"
  by (simp add: markDirty_def Let_def)

lemma walk_redrawId:
  "walk h els i p cnt s = (s', q, ev) \<Longrightarrow> redrawId s' = redrawId s"
proof (induction els arbitrary: i p cnt s s' q ev)
  case Nil
  then show ?case by simp
next
  case (Cons e els)
  show ?case
  proof (cases "el_incremental e")
    case True
    obtain a s1 ev1 where g: "getLayer h (add h (el_zlevel e) INCREMENTAL_INC) (needsManuallyCompositing s) s = (a, s1, ev1)"
      by (metis prod_cases3)
    let ?s1 = "s1\<lparr>heap := (heap s1)(a := (heap s1 a)\<lparr>incremental := True\<rparr>)\<rparr>"
    let ?s2 = "if Some a \<noteq> p then enterLayer a p i ?s1 else ?s1"
    let ?s3 = "if el_dirty e then markDirty a i ?s2 else ?s2"
    obtain s4 l4 ev4 where w: "walk h els (i + 1) (Some a) 1 ?s3 = (s4, l4, ev4)"
      by (metis prod_cases3)
    from Cons.prems True g w have "s' = s4" by (simp add: Let_def)
    moreover have "redrawId s4 = redrawId ?s3" using Cons.IH[OF w] .
    moreover have "redrawId ?s3 = redrawId s"
      using getLayer_redrawId[OF g] by (simp add: enterLayer_redrawId markDirty_redrawId)
    ultimately show ?thesis by simp
  next
    case False
    obtain a s1 ev1 where g: "getLayer h (add h (el_zlevel e) (if cnt > 0 then EL_AFTER_INCREMENTAL_INC else 0)) (needsManuallyCompositing s) s = (a, s1, ev1)"
      by (metis prod_cases3)
    let ?s2 = "if Some a \<noteq> p then enterLayer a p i s1 else s1"
    let ?s3 = "if el_dirty e then markDirty a i ?s2 else ?s2"
    obtain s4 l4 ev4 where w: "walk h els (i + 1) (Some a) cnt ?s3 = (s4, l4, ev4)"
      by (metis prod_cases3)
    from Cons.prems False g w have "s' = s4" by (simp add: Let_def)
    moreover have "redrawId s4 = redrawId ?s3" using Cons.IH[OF w] .
    moreover have "redrawId ?s3 = redrawId s"
      using getLayer_redrawId[OF g] by (simp add: enterLayer_redrawId markDirty_redrawId)
    ultimately show ?thesis by simp
  qed
qed

lemma updateLayerStatus_redrawId:
  assumes "updateLayerStatus h list s = Inr (s', ev)"
  shows "redrawId s' = redrawId s"
proof -
  from assms obtain s1 where r: "eachBuiltinLayer resetFlags (zlevelList s) s = Inr s1"
    by (auto simp: updateLayerStatus_def split: sum.splits)
  let ?s2 = "if singleCanvas s1 \<and> differsOrIncremental list
                     then s1\<lparr>needsManuallyCompositing := True\<rparr> else s1"
  obtain s3 l3 ev3 where w: "walk h list 0 None 0 ?s2 = (s3, l3, ev3)" by (metis prod_cases3)
  let ?s4 = "updatePrevLayer l3 (int (length list)) s3"
  from assms r w have sw: "eachBuiltinLayer sweep (zlevelList ?s4) ?s4 = Inr s'"
    by (auto simp: updateLayerStatus_def Let_def split: sum.splits)
  have "redrawId s' = redrawId ?s4" using eachBuiltinLayer_redrawId[OF sw] .
  also have "\<dots> = redrawId s3" by (simp add: updatePrevLayer_redrawId)
  also have "\<dots> = redrawId ?s2" using walk_redrawId[OF w] .
  also have "\<dots> = redrawId s1" by simp
  also have "\<dots> = redrawId s" using eachBuiltinLayer_redrawId[OF r] .
  finally show ?thesis .
qed

lemma paintLayer_redrawId:
  "paintLayer h list pa a s = Inr (s', ev, u) \<Longrightarrow> redrawId s' = redrawId s"
  by (auto simp: paintLayer_def Let_def split: sum.splits prod.splits if_splits option.splits)

lemma paintLayers_redrawId:
  "paintLayers h list pa as fin s = Inr (s', ev, f) \<Longrightarrow> redrawId s' = redrawId s"
proof (induction as arbitrary: fin s s' ev f)
  case Nil
  then show ?case by simp
next
  case (Cons a as)
  from Cons.prems obtain s1 ev1 u where p: "paintLayer h list pa a s = Inr (s1, ev1, u)"
    by (auto split: sum.splits)
  with Cons.prems obtain ev2 where
    "paintLayers h list pa as (if u then False else fin) s1 = Inr (s', ev2, f)"
    by (auto split: sum.splits)
  from Cons.IH[OF this] paintLayer_redrawId[OF p] show ?case by simp
qed

lemma doPaintList_redrawId:
  "doPaintList h list pa s = Inr (s', ev, f) \<Longrightarrow> redrawId s' = redrawId s"
  by (auto simp: doPaintList_def split: sum.splits dest: paintLayers_redrawId)

lemma compositeManually_redrawId:
  "compositeManually h s = Inr (s', ev) \<Longrightarrow> redrawId s' = redrawId s"
  by (auto simp: compositeManually_def split: prod.splits sum.splits dest: getLayer_redrawId)

lemma paintList_redrawId:
  assumes "paintList h list pa rid s = Inr (s', ev, p)"
  shows "redrawId s' = redrawId s"
proof (cases "redrawId s \<noteq> rid")
  case True
  with assms show ?thesis by (simp add: paintList_def)
next
  case False
  with assms obtain s1 ev1 where u: "updateLayerStatus h list s = Inr (s1, ev1)"
    by (auto simp: paintList_def split: sum.splits)
  with assms False obtain s2 ev2 fin where d: "doPaintList h list pa s1 = Inr (s2, ev2, fin)"
    by (auto simp: paintList_def split: sum.splits)
  with assms False u obtain ev3 where
    c: "(if needsManuallyCompositing s2 then compositeManually h s2 else Inr (s2, [])) = Inr (s', ev3)"
    by (auto simp: paintList_def split: sum.splits)
  then have "redrawId s' = redrawId s2"
    by (auto split: if_splits dest: compositeManually_redrawId)
  with doPaintList_redrawId[OF d] updateLayerStatus_redrawId[OF u] show ?thesis by simp
qed

lemma refresh_redrawId:
  assumes "refresh h r list pa s = Inr (s', ev, p)"
  shows "redrawId s' = Some r"
proof -
  from assms obtain ev1 where
    "paintList h list pa (Some r) (s\<lparr>redrawId := Some r\<rparr>) = Inr (s', ev1, p)"
    by (auto simp: refresh_def split: sum.splits)
  from paintList_redrawId[OF this] show ?thesis by simp
qed

text \<open>
  C3. After a \<^verbatim>\<open>refresh\<close> that stamped the token \<open>r\<close>, a frame callback that captured
  another token returns at once when it runs: the painter is unchanged, nothing is
  classified, cleared or painted, and no further frame is scheduled.
\<close>

theorem stale_frame_is_abandoned:
  assumes "refresh h r list' paintAll' s = Inr (s', ev', pending')" and "rid \<noteq> Some r"
  shows "runFrame h (list, paintAll, rid) s' = Inr (s', [], None)"
  using refresh_redrawId[OF assms(1)] assms(2) by (simp add: runFrame_def paintList_def)

text \<open>The equations that evaluate the model on a concrete input.\<close>

lemmas eval_defs = updateLayerStatus_def getLayer_def layerKey_def createLayer_def insertLayer_def
  insertPos_def isLayerValid_def
  updatePrevLayer_def enterLayer_def markDirty_def sweep_def resetFlags_def getElementCount_def
  CanvasPainter_def quickHost_def slowHost_def freshLayer_def noConfig_def el_def Let_def
  INCREMENTAL_INC_def EL_AFTER_INCREMENTAL_INC_def CANVAS_ZLEVEL_def
  paintList_def doPaintList_def paintLayer_def doPaintEl_def nth_el_def
  compositeManually_def refresh_def refreshHover_def runFrame_def paintEls.simps

lemma two_refreshes:
  "\<exists>s1 ev1 s2 ev2 p2.
     refresh slowHost 1 I3 False (CanvasPainter slowHost False)
       = Inr (s1, ev1, Some (I3, False, Some 1))
     \<and> refresh slowHost 2 I3 False s1 = Inr (s2, ev2, p2)"
  by (simp add: eval_defs I3_def)

theorem stale_frame_is_abandoned_witness:
  "\<exists>s1 ev1 s2 ev2 p2.
     refresh slowHost 1 I3 False (CanvasPainter slowHost False)
       = Inr (s1, ev1, Some (I3, False, Some 1))
     \<and> refresh slowHost 2 I3 False s1 = Inr (s2, ev2, p2)
     \<and> runFrame slowHost (I3, False, Some 1) s2 = Inr (s2, [], None)"
proof -
  from two_refreshes obtain s1 ev1 s2 ev2 p2 where
    r1: "refresh slowHost 1 I3 False (CanvasPainter slowHost False)
       = Inr (s1, ev1, Some (I3, False, Some 1))"
    and r2: "refresh slowHost 2 I3 False s1 = Inr (s2, ev2, p2)"
    by blast
  have ne: "Some (1 :: rat) \<noteq> Some 2" by simp
  from stale_frame_is_abandoned[OF r2 ne, of I3 False]
  have "runFrame slowHost (I3, False, Some 1) s2 = Inr (s2, [], None)" .
  with r1 r2 show ?thesis by blast
qed

subsection \<open>The paint loop\<close>






subsection \<open>Classification keeps the index fields of the layers consistent\<close>


















lemma closedRun_incremental: "closedRun l \<Longrightarrow> closedRun (l\<lparr>incremental := True\<rparr>)"
  by (simp add: closedRun_def)






lemma walk_Cons:
  assumes "getLayer h (add h (el_zlevel e) (if el_incremental e then INCREMENTAL_INC
                                      else if cnt > 0 then EL_AFTER_INCREMENTAL_INC else 0))
             (needsManuallyCompositing s) s = (a, s1, ev1)"
  shows "walk h (e # els) i p cnt s =
    (case walk h els (i + 1) (Some a) (if el_incremental e then 1 else cnt)
       (let s1' = (if el_incremental e
                   then s1\<lparr>heap := (heap s1)(a := (heap s1 a)\<lparr>incremental := True\<rparr>)\<rparr> else s1);
            s2 = (if Some a \<noteq> p then enterLayer a p i s1' else s1')
        in if el_dirty e then markDirty a i s2 else s2) of
      (s4, lastLayer, ev3) \<Rightarrow>
        (s4, lastLayer,
         ev1 @ (if \<not> builtin (heap s1 a) then [LogError (UsedByUnknownLayer (el_zlevel e))]
                else []) @ ev3))"
  using assms by (cases "el_incremental e") (simp_all add: Let_def)


lemma sweep_closedRun:
  assumes "closedRun l"
  shows "(dirty (sweep l) \<longrightarrow> 0 \<le> startIndex (sweep l) \<and> inRange (sweep l))
     \<and> (used (sweep l) \<and> \<not> incremental (sweep l) \<longrightarrow> drawIndex (sweep l) = startIndex (sweep l))
     \<and> (used (sweep l) \<longrightarrow> drawIndex (sweep l) = - 1 \<or> inRange (sweep l))"
  using assms
  by (auto simp: closedRun_def sweep_def getElementCount_def inRange_def Let_def)















subsection \<open>Painting keeps the draw index inside the range\<close>














subsection \<open>The bounds of the draw index\<close>


text \<open>
  The constructor establishes the hypotheses when the host's root layer is within the
  bounds.
\<close>

lemma registryOk_CanvasPainter: "registryOk (CanvasPainter h single)"
  by (auto simp: registryOk_def CanvasPainter_def)

lemma indexOk_CanvasPainter:
  assumes "indexOk (rootLayer h)"
  shows "\<forall>z a. layers (CanvasPainter h single) z = Some a
           \<and> builtin (heap (CanvasPainter h single) a)
     \<longrightarrow> indexOk (heap (CanvasPainter h single) a)"
  using assms by (auto simp: CanvasPainter_def indexOk_def split: if_splits)







subsection \<open>The main layer of a single canvas\<close>

lemma grows_refl: "grows s s"
  by (simp add: grows_def)

lemma grows_trans: "grows s s1 \<Longrightarrow> grows s1 s2 \<Longrightarrow> grows s s2"
  by (simp add: grows_def)

lemma grows_same: "singleCanvas s' = singleCanvas s \<Longrightarrow> layers s' = layers s \<Longrightarrow> grows s s'"
  by (simp add: grows_def)

lemma insertLayer_grows: "insertLayer z l s = (s', ev) \<Longrightarrow> grows s s'"
  by (auto simp: insertLayer_def Let_def grows_def split: option.splits if_splits)

lemma getLayer_grows: "getLayer h z v s = (a, s', ev) \<Longrightarrow> grows s s'"
proof (cases "layers s (layerKey s z)")
  case None
  assume g: "getLayer h z v s = (a, s', ev)"
  from getLayer_created[OF refl None, of h v] g show ?thesis
    using None by (auto simp: grows_def)
next
  case (Some b)
  assume g: "getLayer h z v s = (a, s', ev)"
  from getLayer_found[OF Some, of h v] g show ?thesis by (simp add: grows_def)
qed

lemma eachBuiltinLayer_grows:
  "eachBuiltinLayer f zs s = Inr s' \<Longrightarrow> grows s s'"
proof (induction zs arbitrary: s)
  case Nil
  then show ?case by (simp add: grows_def)
next
  case (Cons z zs)
  from Cons.prems obtain b where b: "layers s z = Some b"
    by (auto split: option.splits)
  let ?s1 = "if builtin (heap s b) then s\<lparr>heap := (heap s)(b := f (heap s b))\<rparr> else s"
  from Cons.prems b have "eachBuiltinLayer f zs ?s1 = Inr s'" by simp
  from Cons.IH[OF this] show ?case by (simp add: grows_def split: if_splits)
qed

lemma updatePrevLayer_grows: "grows s (updatePrevLayer p i s)"
  by (simp add: grows_def updatePrevLayer_def Let_def split: option.splits)

lemma enterLayer_grows: "grows s (enterLayer a p i s)"
  by (simp add: grows_def enterLayer_def Let_def updatePrevLayer_def split: option.splits)

lemma markDirty_grows: "grows s (markDirty a i s)"
  by (simp add: grows_def markDirty_def Let_def)

lemma walk_grows:
  "walk h els i p cnt s = (s', q, ev) \<Longrightarrow> grows s s'"
proof (induction els arbitrary: i p cnt s s' q ev)
  case Nil
  then show ?case by (simp add: grows_refl)
next
  case (Cons e els)
  obtain a s1 ev1 where g:
    "getLayer h (add h (el_zlevel e) (if el_incremental e then INCREMENTAL_INC
                                      else if cnt > 0 then EL_AFTER_INCREMENTAL_INC else 0))
             (needsManuallyCompositing s) s = (a, s1, ev1)"
    by (metis prod_cases3)
  define s1' where "s1' = (if el_incremental e
                   then s1\<lparr>heap := (heap s1)(a := (heap s1 a)\<lparr>incremental := True\<rparr>)\<rparr> else s1)"
  define s2 where "s2 = (if Some a \<noteq> p then enterLayer a p i s1' else s1')"
  define s3 where "s3 = (if el_dirty e then markDirty a i s2 else s2)"
  obtain s4 l4 ev4 where w:
    "walk h els (i + 1) (Some a) (if el_incremental e then 1 else cnt) s3 = (s4, l4, ev4)"
    by (metis prod_cases3)
  have eq: "walk h (e # els) i p cnt s =
    (case walk h els (i + 1) (Some a) (if el_incremental e then 1 else cnt) s3 of
      (s4, lastLayer, ev3) \<Rightarrow>
        (s4, lastLayer,
         ev1 @ (if \<not> builtin (heap s1 a) then [LogError (UsedByUnknownLayer (el_zlevel e))]
                else []) @ ev3))"
    unfolding s3_def s2_def s1'_def using walk_Cons[OF g, of els i p] by (simp only: Let_def)
  from Cons.prems have "(s4, l4,
         ev1 @ (if \<not> builtin (heap s1 a) then [LogError (UsedByUnknownLayer (el_zlevel e))]
                else []) @ ev4) = (s', q, ev)"
    by (simp only: eq w prod.case)
  then have res: "s' = s4" by simp
  have g1: "grows s s1" using g by (rule getLayer_grows)
  have g1': "grows s1 s1'" by (simp add: s1'_def grows_def)
  have g2: "grows s1' s2" by (simp add: s2_def enterLayer_grows grows_refl)
  have g3: "grows s2 s3" by (simp add: s3_def markDirty_grows grows_refl)
  have g4: "grows s3 s4" using w by (rule Cons.IH)
  from g1 g1' g2 g3 g4 show ?case unfolding res by (blast intro: grows_trans)
qed

lemma updateLayerStatus_grows:
  assumes "updateLayerStatus h list s = Inr (s', ev)"
  shows "grows s s'"
proof -
  from assms obtain s1 where r: "eachBuiltinLayer resetFlags (zlevelList s) s = Inr s1"
    by (auto simp: updateLayerStatus_def split: sum.splits)
  define s2 where "s2 = (if singleCanvas s1 \<and> differsOrIncremental list
                     then s1\<lparr>needsManuallyCompositing := True\<rparr> else s1)"
  obtain s3 l3 ev3 where w: "walk h list 0 None 0 s2 = (s3, l3, ev3)" by (metis prod_cases3)
  define s4 where "s4 = updatePrevLayer l3 (int (length list)) s3"
  from assms r w have sw: "eachBuiltinLayer sweep (zlevelList s4) s4 = Inr s'"
    by (auto simp: updateLayerStatus_def Let_def s2_def s4_def split: sum.splits)
  have "grows s s1" using r by (rule eachBuiltinLayer_grows)
  moreover have "grows s1 s2" by (simp add: s2_def grows_def)
  moreover have "grows s2 s3" using w by (rule walk_grows)
  moreover have "grows s3 s4" unfolding s4_def by (rule updatePrevLayer_grows)
  moreover have "grows s4 s'" using sw by (rule eachBuiltinLayer_grows)
  ultimately show ?thesis by (blast intro: grows_trans)
qed

lemma paintLayer_grows:
  "paintLayer h list pa a s = Inr (s', ev, u) \<Longrightarrow> grows s s'"
  by (auto simp: paintLayer_def Let_def grows_def
      split: sum.splits prod.splits if_splits option.splits)

lemma paintLayers_grows:
  "paintLayers h list pa as fin s = Inr (s', ev, f) \<Longrightarrow> grows s s'"
proof (induction as arbitrary: fin s s' ev f)
  case Nil
  then show ?case by (simp add: grows_refl)
next
  case (Cons a as)
  from Cons.prems obtain s1 ev1 u where p: "paintLayer h list pa a s = Inr (s1, ev1, u)"
    by (auto split: sum.splits)
  with Cons.prems obtain ev2 where
    "paintLayers h list pa as (if u then False else fin) s1 = Inr (s', ev2, f)"
    by (auto split: sum.splits)
  from Cons.IH[OF this] paintLayer_grows[OF p] show ?case by (rule grows_trans[rotated])
qed

lemma doPaintList_grows:
  "doPaintList h list pa s = Inr (s', ev, f) \<Longrightarrow> grows s s'"
  by (auto simp: doPaintList_def split: sum.splits dest: paintLayers_grows)

lemma compositeManually_grows:
  "compositeManually h s = Inr (s', ev) \<Longrightarrow> grows s s'"
  by (auto simp: compositeManually_def split: prod.splits sum.splits dest: getLayer_grows)

lemma paintList_grows:
  assumes "paintList h list pa rid s = Inr (s', ev, p)"
  shows "grows s s'"
proof (cases "redrawId s \<noteq> rid")
  case True
  with assms show ?thesis by (simp add: paintList_def grows_refl)
next
  case False
  with assms obtain s1 ev1 where u: "updateLayerStatus h list s = Inr (s1, ev1)"
    by (auto simp: paintList_def split: sum.splits)
  with assms False obtain s2 ev2 fin where d: "doPaintList h list pa s1 = Inr (s2, ev2, fin)"
    by (auto simp: paintList_def split: sum.splits)
  with assms False u obtain ev3 where
    c: "(if needsManuallyCompositing s2 then compositeManually h s2 else Inr (s2, [])) = Inr (s', ev3)"
    by (auto simp: paintList_def split: sum.splits)
  then have "grows s2 s'"
    by (auto split: if_splits dest: compositeManually_grows simp: grows_refl)
  with doPaintList_grows[OF d] updateLayerStatus_grows[OF u] show ?thesis
    by (blast intro: grows_trans)
qed

lemma refresh_grows:
  assumes "refresh h r list pa s = Inr (s', ev, p)"
  shows "grows s s'"
proof -
  from assms obtain ev1 where
    "paintList h list pa (Some r) (s\<lparr>redrawId := Some r\<rparr>) = Inr (s', ev1, p)"
    by (auto simp: refresh_def split: sum.splits)
  from paintList_grows[OF this] show ?thesis by (simp add: grows_def)
qed

lemma configLayer_grows: "grows s (configLayer h z c s)"
proof (cases c)
  case None
  then show ?thesis by (simp add: configLayer_def grows_refl)
next
  case (Some x)
  define s1 where "s1 = (case layerConfig s z of
                       None \<Rightarrow> s\<lparr>layerConfig := (layerConfig s)(z \<mapsto> x)\<rparr>
                     | Some st \<Rightarrow>
                         s\<lparr>configs := (configs s)(st := merge (configs s st) (configs s x))\<rparr>)"
  have e: "configLayer h z c s = fold (mergeLayerAt h z) (zlevelList s1) s1"
    by (simp add: Some configLayer_def Let_def s1_def)
  have "layers s1 = layers s" "singleCanvas s1 = singleCanvas s"
    by (simp_all add: s1_def split: option.splits)
  with fold_mergeLayerAt[of h z "zlevelList s1" s1] show ?thesis
    unfolding e by (simp add: grows_def)
qed

lemma perform_keeps_main:
  assumes "perform h c s = Some s'" and "c \<noteq> DelLayer CANVAS_ZLEVEL"
    and "singleCanvas s" and "layers s CANVAS_ZLEVEL = Some m"
  shows "singleCanvas s' \<and> layers s' CANVAS_ZLEVEL = Some m"
proof (cases c)
  case (GetLayer z v)
  with assms(1) obtain a ev where "getLayer h z v s = (a, s', ev)"
    by (auto split: prod.splits)
  from getLayer_grows[OF this] assms(3,4) show ?thesis by (simp add: grows_def)
next
  case (InsertLayer z l)
  with assms(1) obtain ev where "insertLayer z l s = (s', ev)"
    by (auto split: prod.splits)
  from insertLayer_grows[OF this] assms(3,4) show ?thesis by (simp add: grows_def)
next
  case (DelLayer z)
  with assms(2) have z: "z \<noteq> CANVAS_ZLEVEL" by simp
  from DelLayer assms(1) have "delLayer z s = Inr s'" by (auto split: sum.splits)
  with z assms(3,4) show ?thesis
    by (auto simp: delLayer_def Let_def split: option.splits if_splits)
next
  case (ConfigLayer z x)
  with assms(1) have "s' = configLayer h z x s" by simp
  with configLayer_grows[of s h z x] assms(3,4) show ?thesis by (simp add: grows_def)
next
  case (Refresh r list pa)
  with assms(1) obtain ev p where "refresh h r list pa s = Inr (s', ev, p)"
    by (auto split: sum.splits)
  from refresh_grows[OF this] assms(3,4) show ?thesis by (simp add: grows_def)
next
  case (Frame list pa rid)
  with assms(1) obtain ev p where "paintList h list pa rid s = Inr (s', ev, p)"
    by (auto simp: runFrame_def split: sum.splits)
  from paintList_grows[OF this] assms(3,4) show ?thesis by (simp add: grows_def)
next
  case (BuildLayer l)
  with assms show ?thesis by auto
next
  case (BuildConfig x cfg)
  with assms show ?thesis by auto
qed

lemma run_keeps_main:
  assumes "run h cs s = Some s'" and "DelLayer CANVAS_ZLEVEL \<notin> set cs"
    and "singleCanvas s" and "layers s CANVAS_ZLEVEL = Some m"
  shows "singleCanvas s' \<and> layers s' CANVAS_ZLEVEL = Some m"
  using assms
proof (induction cs arbitrary: s)
  case Nil
  then show ?case by simp
next
  case (Cons c cs)
  from Cons.prems(1) obtain s1 where p: "perform h c s = Some s1" and r: "run h cs s1 = Some s'"
    by (auto split: option.splits)
  from Cons.prems(2) have c: "c \<noteq> DelLayer CANVAS_ZLEVEL" and cs: "DelLayer CANVAS_ZLEVEL \<notin> set cs"
    by auto
  from perform_keeps_main[OF p c Cons.prems(3,4)]
  have "singleCanvas s1" "layers s1 CANVAS_ZLEVEL = Some m" by simp_all
  from Cons.IH[OF r cs this] show ?case .
qed

text \<open>
  C9 (as amended). Take a painter constructed on a single canvas and any sequence of
  calls on it, each of which returns and none of which is \<^verbatim>\<open>delLayer(CANVAS_ZLEVEL)\<close>. If
  manual compositing is not switched on afterwards, the painter is still on a single
  canvas, the main layer that the constructor built (object 0) is still registered under
  \<open>CANVAS_ZLEVEL\<close>, and \<^verbatim>\<open>getLayer\<close> returns it whatever the z-level and the virtual flag
  are, leaving the painter unchanged: no layer is created and the z-level list is as
  before.
\<close>

theorem getLayer_single_canvas:
  assumes "run h cs (CanvasPainter h True) = Some s"
    and "DelLayer CANVAS_ZLEVEL \<notin> set cs"
    and "\<not> needsManuallyCompositing s"
  shows "singleCanvas s \<and> layers s CANVAS_ZLEVEL = Some 0 \<and> getLayer h z v s = (0, s, [])"
proof -
  have "singleCanvas (CanvasPainter h True)" "layers (CanvasPainter h True) CANVAS_ZLEVEL = Some 0"
    by (simp_all add: CanvasPainter_def)
  from run_keeps_main[OF assms(1,2) this]
  have m: "singleCanvas s" "layers s CANVAS_ZLEVEL = Some 0" by simp_all
  with assms(3) have "getLayer h z v s = (0, s, [])"
    by (simp add: getLayer_def layerKey_def)
  with m show ?thesis by simp
qed

lemma someCalls_run:
  "\<exists>s. run quickHost someCalls (CanvasPainter quickHost True) = Some s
       \<and> \<not> needsManuallyCompositing s"
  by (simp add: someCalls_def eval_defs delLayer_def configLayer_def mergeLayerAt_def
      scan_singleton)

theorem getLayer_single_canvas_witness:
  "DelLayer CANVAS_ZLEVEL \<notin> set someCalls
   \<and> (\<exists>s. run quickHost someCalls (CanvasPainter quickHost True) = Some s
       \<and> \<not> needsManuallyCompositing s
       \<and> layers s CANVAS_ZLEVEL = Some 0
       \<and> getLayer quickHost 9 True s = (0, s, []))"
proof -
  have d: "DelLayer CANVAS_ZLEVEL \<notin> set someCalls"
    by (simp add: someCalls_def CANVAS_ZLEVEL_def)
  from someCalls_run obtain s where
    r: "run quickHost someCalls (CanvasPainter quickHost True) = Some s"
    and n: "\<not> needsManuallyCompositing s"
    by blast
  from getLayer_single_canvas[OF r d n, of 9 True] d r n show ?thesis by blast
qed

text \<open>
  C9 as stated fails once the main layer has been deleted. On a single canvas that stands
  in a page, after \<^verbatim>\<open>delLayer(CANVAS_ZLEVEL)\<close> manual compositing is still off and the
  registry is empty; \<^verbatim>\<open>getLayer(0)\<close> then builds a new layer (object 1), registers it under
  \<open>CANVAS_ZLEVEL\<close> and puts the key into the z-level list.
\<close>

theorem deleted_main_layer_is_rebuilt:
  "\<exists>s s'.
     run pageHost [DelLayer CANVAS_ZLEVEL] (CanvasPainter pageHost True) = Some s
     \<and> singleCanvas s \<and> \<not> needsManuallyCompositing s
     \<and> layers s CANVAS_ZLEVEL = None \<and> zlevelList s = [] \<and> nextAddr s = 1
     \<and> getLayer pageHost 0 False s = (1, s', [])
     \<and> layers s' CANVAS_ZLEVEL = Some 1 \<and> zlevelList s' = [CANVAS_ZLEVEL] \<and> nextAddr s' = 2"
  by (simp add: pageHost_def eval_defs delLayer_def)

subsection \<open>Evaluations on concrete display lists\<close>

text \<open>
  C1, evaluated on a list the storage can return: three elements of z-level 0, an
  incremental one, a plain one and another incremental one. After classification the
  incremental layer (key 0.001) has the range \<open>[2, 3)\<close> and the layer after it (key 0.01)
  the range \<open>[1, 2)\<close>; both are engine-built and used, and no layer holds index 0.
\<close>

theorem interleaved_incremental_leaves_gap:
  "\<exists>s ev.
     updateLayerStatus quickHost interleaved (CanvasPainter quickHost False) = Inr (s, ev)
     \<and> zlevelList s = [1 / 1000, 1 / 100]
     \<and> layers s (1 / 1000) = Some 0 \<and> builtin (heap s 0) \<and> used (heap s 0)
     \<and> startIndex (heap s 0) = 2 \<and> endIndex (heap s 0) = 3
     \<and> layers s (1 / 100) = Some 1 \<and> builtin (heap s 1) \<and> used (heap s 1)
     \<and> startIndex (heap s 1) = 1 \<and> endIndex (heap s 1) = 2"
  by (simp add: eval_defs interleaved_def scan_singleton)

text \<open>
  C4, evaluated on the same list: the first \<^verbatim>\<open>refresh(false)\<close> completes (no frame is
  scheduled); a second classification of the same elements, all clean, leaves the
  incremental layer dirty, and the second \<^verbatim>\<open>refresh(false)\<close> clears it and paints the
  element at index 2 again.
\<close>

theorem second_refresh_repaints_interleaved:
  "\<exists>s1 ev1 s2 ev2 s3.
     refresh quickHost 1 interleaved False (CanvasPainter quickHost False)
       = Inr (s1, ev1, None)
     \<and> updateLayerStatus quickHost interleavedClean s1 = Inr (s2, ev2)
     \<and> layers s2 (1 / 1000) = Some 0 \<and> builtin (heap s2 0) \<and> dirty (heap s2 0)
     \<and> refresh quickHost 2 interleavedClean False s1
       = Inr (s3, [Clear 0 None, Brush 0 2 True], None)"
  by (simp add: eval_defs interleaved_def interleavedClean_def scan_singleton)

text \<open>
  C2, evaluated with a clock that advances by 20 at every reading. Of three dirty
  incremental elements the first pass paints the element at index 0 and stops, and the
  draw index of the layer is 0, the index of the element just painted. With a single
  element the pass paints it, the draw index is still 0, below the end index 1, and a
  further frame is scheduled though nothing is left to paint.
\<close>

theorem budget_stop_keeps_painted_index:
  "(\<exists>s. refresh slowHost 1 I3 False (CanvasPainter slowHost False)
          = Inr (s, [Clear 0 None, Brush 0 0 False], Some (I3, False, Some 1))
        \<and> layers s (1 / 1000) = Some 0 \<and> incremental (heap s 0)
        \<and> startIndex (heap s 0) = 0 \<and> endIndex (heap s 0) = 3
        \<and> drawIndex (heap s 0) = 0)
   \<and> (\<exists>s. refresh slowHost 1 oneIncremental False (CanvasPainter slowHost False)
          = Inr (s, [Clear 0 None, Brush 0 0 True], Some (oneIncremental, False, Some 1))
        \<and> layers s (1 / 1000) = Some 0
        \<and> startIndex (heap s 0) = 0 \<and> endIndex (heap s 0) = 1
        \<and> drawIndex (heap s 0) = 0)"
  by (simp add: eval_defs I3_def oneIncremental_def)

text \<open>
  C10 as stated fails where the sum \<open>zlevel + 0.001\<close> is rounded to \<open>zlevel\<close>. With one
  incremental element of the z-level \<open>2\<^sup>4\<^sup>4\<close>, classification registers the incremental
  layer (object 0) under the key \<open>2\<^sup>4\<^sup>4 + 0.001\<close>, which is \<open>2\<^sup>4\<^sup>4\<close>. After a caller has built
  a configuration object that sets the clear colour, \<^verbatim>\<open>configLayer\<close> for the z-level \<open>2\<^sup>4\<^sup>4\<close>
  sets the clear colour of that layer.
\<close>

theorem absorbed_increment_is_configured:
  "\<exists>s1 ev.
     updateLayerStatus roundingHost hugeIncremental (CanvasPainter roundingHost False)
       = Inr (s1, ev)
     \<and> zlevelList s1 = [17592186044416]
     \<and> layers s1 (add roundingHost 17592186044416 INCREMENTAL_INC) = Some 0
     \<and> incremental (heap s1 0)
     \<and> clearColor (config (heap s1 0)) = Absent
     \<and> clearColor (config (heap
           (configLayer roundingHost 17592186044416 (Some 0)
              (s1\<lparr>configs := (configs s1)(0 := redConfig)\<rparr>)) 0)) = Value ''red''"
  by (simp add: eval_defs roundingHost_def hugeIncremental_def configLayer_def mergeLayerAt_def
      merge_def overwrite_def redConfig_def)

end
